theory Spec2Isabelle
  imports Complex_Main
begin

section \<open>Data model\<close>

text \<open>
  The bookstore backend keeps five tables behind the ORM client: users, genres, books,
  orders and order items. A table is the list of its rows in insertion order. Ids are
  strings (the controllers call \<^verbatim>\<open>.trim()\<close> on them); a tombstone
  \<^verbatim>\<open>deleted_at\<close> is \<open>None\<close> for SQL NULL. A JavaScript number is a \<open>real\<close>
  (without the rounding of doubles); the integer columns of the store, a book's stock
  and an order item's quantity, are \<open>int\<close>.
\<close>

type_synonym ident = string
type_synonym timestamp = nat

record user =
  u_id :: ident
  u_username :: string
  u_email :: string

record genre =
  g_id :: ident
  g_name :: string
  g_deleted_at :: "timestamp option"

record book =
  b_id :: ident
  b_title :: string
  b_writer :: string
  b_publisher :: string
  b_publication_year :: "int option"
  b_description :: "string option"
  b_price :: real
  b_stock_quantity :: int
  b_genre_id :: ident
  b_deleted_at :: "timestamp option"

record order_row =
  o_id :: ident
  o_user_id :: ident
  o_totalPrice :: real
  o_created_at :: timestamp

record order_item =
  oi_id :: ident
  oi_order_id :: ident
  oi_book_id :: ident
  oi_quantity :: int

record store =
  users :: "user list"
  genres :: "genre list"
  books :: "book list"
  orders :: "order_row list"
  order_items :: "order_item list"
  issued :: nat

text \<open>
  Modelled from the spec: the database schema is not among the sources, so the id the
  store gives a new row comes from a counter (\<open>issued\<close>), rendered as a string; the
  spec only asks that ids be unique.
\<close>

definition fresh_id :: "nat \<Rightarrow> ident" where
  "fresh_id n = CHR ''#'' # replicate n (CHR ''i'')"

subsection \<open>Store queries\<close>

text \<open>\<^verbatim>\<open>prisma.user.findUnique({ where: { id } })\<close>\<close>

definition find_user :: "store \<Rightarrow> ident \<Rightarrow> user option" where
  "find_user st i = find (\<lambda>u. u_id u = i) (users st)"

text \<open>
  \<^verbatim>\<open>prisma.book.findFirst({ where: { id, deleted_at: null } })\<close>
\<close>

definition find_book_active :: "store \<Rightarrow> ident \<Rightarrow> book option" where
  "find_book_active st i = find (\<lambda>b. b_id b = i \<and> b_deleted_at b = None) (books st)"

text \<open>
  \<^verbatim>\<open>prisma.book.findUnique({ where: { id } })\<close>: no tombstone
  filter.
\<close>

definition find_book_unique :: "store \<Rightarrow> ident \<Rightarrow> book option" where
  "find_book_unique st i = find (\<lambda>b. b_id b = i) (books st)"

text \<open>
  \<^verbatim>\<open>prisma.genre.findFirst({ where: { id, deleted_at: null } })\<close>
\<close>

definition find_genre_active :: "store \<Rightarrow> ident \<Rightarrow> genre option" where
  "find_genre_active st i = find (\<lambda>g. g_id g = i \<and> g_deleted_at g = None) (genres st)"

text \<open>
  The genre a book row points to, as \<^verbatim>\<open>include: { genre: true }\<close>
  loads it.
\<close>

definition find_genre_unique :: "store \<Rightarrow> ident \<Rightarrow> genre option" where
  "find_genre_unique st i = find (\<lambda>g. g_id g = i) (genres st)"

definition find_order :: "store \<Rightarrow> ident \<Rightarrow> order_row option" where
  "find_order st i = find (\<lambda>ord. o_id ord = i) (orders st)"

section \<open>Transaction service: createTransaction\<close>

text \<open>
  An item of the request, \<^verbatim>\<open>{ book_id: string; quantity: number }\<close>. The body is
  cast, not checked, so the quantity is any JSON number, whole or not.
\<close>

record tx_item =
  book_id :: ident
  quantity :: real

text \<open>
  The request body \<^verbatim>\<open>{ user_id, items }\<close>; a field that is absent is \<open>None\<close>.
\<close>

record tx_request =
  req_user_id :: "ident option"
  req_items :: "tx_item list option"

text \<open>
  Every response the handler can send that is not the 201: the named validation and
  not-found answers, and the 500 of the catch block.
\<close>

datatype tx_error =
  UserIdRequired
  | ItemsEmpty
  | UserNotFound
  | ItemIncomplete
  | QuantityNotPositive
  | BookNotFound ident
  | InsufficientStock string int real
  | TxInternalError

fun tx_status :: "tx_error \<Rightarrow> nat" where
  "tx_status UserIdRequired = 400"
| "tx_status ItemsEmpty = 400"
| "tx_status UserNotFound = 404"
| "tx_status ItemIncomplete = 400"
| "tx_status QuantityNotPositive = 400"
| "tx_status (BookNotFound i) = 404"
| "tx_status (InsufficientStock t a r) = 400"
| "tx_status TxInternalError = 500"

record user_summary =
  us_id :: ident
  us_username :: string
  us_email :: string

record book_summary =
  bs_id :: ident
  bs_title :: string
  bs_writer :: string
  bs_price :: real
  bs_genre :: string

record item_view =
  iv_id :: ident
  iv_book :: book_summary
  iv_quantity :: int
  iv_subtotal :: real

record tx_response =
  transaction_id :: ident
  tx_user :: user_summary
  total_quantity :: real
  total_price :: real
  tx_items :: "item_view list"
  created_at :: timestamp

text \<open>
  The validation pass (the first \<^verbatim>\<open>for (const item of items)\<close>): it answers at the
  first item that fails and reads the store only. \<^verbatim>\<open>!item.book_id\<close> holds for the
  empty string, \<^verbatim>\<open>!item.quantity\<close> for 0.
\<close>

fun validate_items :: "store \<Rightarrow> tx_item list \<Rightarrow> tx_error option" where
  "validate_items st [] = None"
| "validate_items st (it # its) =
     (if book_id it = [] \<or> quantity it = 0 then Some ItemIncomplete
      else if quantity it \<le> 0 then Some QuantityNotPositive
      else (case find_book_active st (book_id it) of
              None \<Rightarrow> Some (BookNotFound (book_id it))
            | Some b \<Rightarrow>
                if of_int (b_stock_quantity b) < quantity it
                then Some (InsufficientStock (b_title b) (b_stock_quantity b) (quantity it))
                else validate_items st its))"

text \<open>
  \<^verbatim>\<open>prisma.order.create({ data: { user_id, totalPrice: 0 } })\<close>
\<close>

definition create_order :: "timestamp \<Rightarrow> store \<Rightarrow> ident \<Rightarrow> store" where
  "create_order now st uid =
     st\<lparr>orders := orders st @
           [\<lparr>o_id = fresh_id (issued st), o_user_id = uid, o_totalPrice = 0,
             o_created_at = now\<rparr>],
        issued := Suc (issued st)\<rparr>"

text \<open>
  Modelled from the spec: an order item's quantity and a book's stock are integers, and
  the schema that types these columns is not among the sources. What the store does
  with a number written to such a column is therefore a parameter of the handler: the
  integer it keeps of the number, or \<open>None\<close> when it refuses the write and the client
  throws.
\<close>

type_synonym int_column = "real \<Rightarrow> int option"

text \<open>
  \<^verbatim>\<open>prisma.orderItem.create({ data: { order_id, book_id, quantity } })\<close>, with the
  integer the column keeps of the quantity.
\<close>

definition create_order_item :: "store \<Rightarrow> ident \<Rightarrow> ident \<Rightarrow> int \<Rightarrow> store" where
  "create_order_item st oid bid q =
     st\<lparr>order_items := order_items st @
           [\<lparr>oi_id = fresh_id (issued st), oi_order_id = oid, oi_book_id = bid,
             oi_quantity = q\<rparr>],
        issued := Suc (issued st)\<rparr>"

text \<open>
  \<^verbatim>\<open>prisma.book.update({ where: { id }, data: { stock_quantity: { decrement } } })\<close>,
  with the integer the column keeps of the quantity. The handler calls it on a row it
  has just read, so the store's "record not found" error cannot arise here.
\<close>

definition decrement_stock :: "store \<Rightarrow> ident \<Rightarrow> int \<Rightarrow> store" where
  "decrement_stock st bid q =
     st\<lparr>books := map (\<lambda>b. if b_id b = bid
                            then b\<lparr>b_stock_quantity := b_stock_quantity b - q\<rparr> else b)
                     (books st)\<rparr>"

text \<open>
  The body of the second loop, on the store and the two running totals: re-fetch the
  book by id alone, \<^verbatim>\<open>continue\<close> when there is none, otherwise add to the totals
  (with the quantity as the request gives it), create the order item, then decrement
  the stock. Where the store refuses the quantity the write throws: the result is
  \<open>Inl\<close> with the store as it is at that moment.
\<close>

definition process_item ::
  "int_column \<Rightarrow> ident \<Rightarrow> store \<times> real \<times> real \<Rightarrow> tx_item \<Rightarrow> store + store \<times> real \<times> real" where
  "process_item col oid acc it =
     (case acc of (st, totalQuantity, totalPrice) \<Rightarrow>
        (case find_book_unique st (book_id it) of
           None \<Rightarrow> Inr (st, totalQuantity, totalPrice)
         | Some b \<Rightarrow>
             (case col (quantity it) of
                None \<Rightarrow> Inl st
              | Some k \<Rightarrow>
                  let subtotal = b_price b * quantity it;
                      st1 = create_order_item st oid (b_id b) k;
                      st2 = decrement_stock st1 (b_id b) k
                  in Inr (st2, totalQuantity + quantity it, totalPrice + subtotal))))"

text \<open>The second loop: it stops at a write that throws.\<close>

fun materialize ::
  "int_column \<Rightarrow> ident \<Rightarrow> store \<times> real \<times> real \<Rightarrow> tx_item list \<Rightarrow> store + store \<times> real \<times> real" where
  "materialize col oid acc [] = Inr acc"
| "materialize col oid acc (it # its) =
     (case process_item col oid acc it of
        Inl st \<Rightarrow> Inl st
      | Inr acc' \<Rightarrow> materialize col oid acc' its)"

text \<open>
  \<^verbatim>\<open>prisma.order.update({ where: { id }, data: { totalPrice } })\<close>
\<close>

definition update_order_total :: "store \<Rightarrow> ident \<Rightarrow> real \<Rightarrow> store" where
  "update_order_total st oid p =
     st\<lparr>orders := map (\<lambda>ord. if o_id ord = oid then ord\<lparr>o_totalPrice := p\<rparr> else ord)
                      (orders st)\<rparr>"

text \<open>
  The shape of one returned item. The included book and its genre are read from the
  store; a missing one would make the property access throw, which is \<open>None\<close> here.
\<close>

definition item_view_of :: "store \<Rightarrow> order_item \<Rightarrow> item_view option" where
  "item_view_of st oi =
     (case find_book_unique st (oi_book_id oi) of
        None \<Rightarrow> None
      | Some b \<Rightarrow>
          (case find_genre_unique st (b_genre_id b) of
             None \<Rightarrow> None
           | Some g \<Rightarrow>
               Some \<lparr>iv_id = oi_id oi,
                     iv_book = \<lparr>bs_id = b_id b, bs_title = b_title b, bs_writer = b_writer b,
                                bs_price = b_price b, bs_genre = g_name g\<rparr>,
                     iv_quantity = oi_quantity oi,
                     iv_subtotal = b_price b * of_int (oi_quantity oi)\<rparr>))"

fun item_views :: "store \<Rightarrow> order_item list \<Rightarrow> item_view list option" where
  "item_views st [] = Some []"
| "item_views st (oi # ois) =
     (case item_view_of st oi of
        None \<Rightarrow> None
      | Some v \<Rightarrow> (case item_views st ois of None \<Rightarrow> None | Some vs \<Rightarrow> Some (v # vs)))"

definition user_summary_of :: "user \<Rightarrow> user_summary" where
  "user_summary_of u = \<lparr>us_id = u_id u, us_username = u_username u, us_email = u_email u\<rparr>"

text \<open>
  The handler from the creation of the order row on (the statements after the
  validation pass): order row, second loop, final total, reload and response. It
  returns the response and the store it leaves behind. An exception reaches the catch
  block with the writes made so far kept (nothing rolls them back).
\<close>

definition place_order ::
  "int_column \<Rightarrow> timestamp \<Rightarrow> store \<Rightarrow> ident \<Rightarrow> tx_item list \<Rightarrow>
     (tx_error + tx_response) \<times> store" where
  "place_order col now st uid its =
     (let oid = fresh_id (issued st);
          st1 = create_order now st uid
      in (case materialize col oid (st1, 0, 0) its of
            Inl st_thrown \<Rightarrow> (Inl TxInternalError, st_thrown)
          | Inr (st2, totalQuantity, totalPrice) \<Rightarrow>
              let st3 = update_order_total st2 oid totalPrice in
              (case (find_order st3 oid, find_user st3 uid,
                     item_views st3
                       (filter (\<lambda>oi. oi_order_id oi = oid) (order_items st3))) of
                 (Some ord, Some usr, Some vs) \<Rightarrow>
                   (Inr \<lparr>transaction_id = o_id ord,
                         tx_user = user_summary_of usr,
                         total_quantity = totalQuantity,
                         total_price = totalPrice,
                         tx_items = vs,
                         created_at = o_created_at ord\<rparr>, st3)
               | _ \<Rightarrow> (Inl TxInternalError, st3))))"

text \<open>
  The handler: the checks of the request, the validation pass, and then the rest on
  the same store.
\<close>

definition createTransaction ::
  "int_column \<Rightarrow> timestamp \<Rightarrow> store \<Rightarrow> tx_request \<Rightarrow> (tx_error + tx_response) \<times> store" where
  "createTransaction col now st req =
     (case req_user_id req of
        None \<Rightarrow> (Inl UserIdRequired, st)
      | Some uid \<Rightarrow>
          if uid = [] then (Inl UserIdRequired, st)
          else (case req_items req of
             None \<Rightarrow> (Inl ItemsEmpty, st)
           | Some its \<Rightarrow>
               if its = [] then (Inl ItemsEmpty, st)
               else (case find_user st uid of
                  None \<Rightarrow> (Inl UserNotFound, st)
                | Some u \<Rightarrow>
                    (case validate_items st its of
                       Some e \<Rightarrow> (Inl e, st)
                     | None \<Rightarrow> place_order col now st uid its))))"

section \<open>Transaction service: getTransactionStatistics\<close>

record statistics =
  total_transactions :: nat
  average_transaction_value :: real
  most_popular_genre :: "string option"
  least_popular_genre :: "string option"

text \<open>
  \<^verbatim>\<open>prisma.order.aggregate({ _avg: { totalPrice: true } })\<close>: SQL's AVG is NULL over
  no rows.
\<close>

definition avg_totalPrice :: "store \<Rightarrow> real option" where
  "avg_totalPrice st =
     (if orders st = [] then None
      else Some (sum_list (map o_totalPrice (orders st)) / of_nat (length (orders st))))"

text \<open>
  The FROM and WHERE of both raw queries: order items joined to their book and the
  book's genre, both without a tombstone; one genre name per joined row.
\<close>

definition joined_genre_names :: "store \<Rightarrow> string list" where
  "joined_genre_names st =
     concat (map (\<lambda>oi.
       concat (map (\<lambda>b.
         map g_name
           (filter (\<lambda>g. g_id g = b_genre_id b \<and> b_deleted_at b = None \<and> g_deleted_at g = None)
              (genres st)))
         (filter (\<lambda>b. b_id b = oi_book_id oi) (books st))))
       (order_items st))"

text \<open>\<^verbatim>\<open>SELECT g.name, COUNT(oi.id) ... GROUP BY g.name\<close>\<close>

definition genre_counts :: "store \<Rightarrow> (string \<times> nat) list" where
  "genre_counts st =
     (let names = joined_genre_names st
      in map (\<lambda>n. (n, count_list names n)) (remdups names))"

text \<open>
  \<^verbatim>\<open>ORDER BY total DESC\<close> and \<^verbatim>\<open>ORDER BY total ASC\<close>, as a stable sort of the
  groups; SQL leaves the order among equal totals open. \<^verbatim>\<open>LIMIT 1\<close> keeps the first row.
\<close>

definition order_by_total_desc :: "(string \<times> nat) list \<Rightarrow> (string \<times> nat) list" where
  "order_by_total_desc gs = sort_key (\<lambda>g. - int (snd g)) gs"

definition order_by_total_asc :: "(string \<times> nat) list \<Rightarrow> (string \<times> nat) list" where
  "order_by_total_asc gs = sort_key (\<lambda>g. int (snd g)) gs"

text \<open>
  \<^verbatim>\<open>rows[0]?.name || null\<close>: no row, or an empty name, gives null.
\<close>

definition first_name_or_null :: "(string \<times> nat) list \<Rightarrow> string option" where
  "first_name_or_null rows =
     (case rows of [] \<Rightarrow> None | r # _ \<Rightarrow> (if fst r = [] then None else Some (fst r)))"

definition getTransactionStatistics :: "store \<Rightarrow> statistics" where
  "getTransactionStatistics st =
     \<lparr>total_transactions = length (orders st),
      average_transaction_value =
        (case avg_totalPrice st of None \<Rightarrow> 0 | Some a \<Rightarrow> (if a = 0 then 0 else a)),
      most_popular_genre = first_name_or_null (take 1 (order_by_total_desc (genre_counts st))),
      least_popular_genre = first_name_or_null (take 1 (order_by_total_asc (genre_counts st)))\<rparr>"

section \<open>Strings\<close>

text \<open>
  \<^verbatim>\<open>String.prototype.trim\<close>. A character of a string is a code point below U+0100
  (the eight bits of \<open>char\<close>). Of the white space and line terminators that trim
  strips, the ones in that range are tab, line feed, vertical tab, form feed, carriage
  return, space and the no-break space U+00A0.
\<close>

definition is_space :: "char \<Rightarrow> bool" where
  "is_space c =
     (c \<in> set [CHR '' '', CHR 0x09, CHR 0x0A, CHR 0x0B, CHR 0x0C, CHR 0x0D, CHR 0xA0])"

definition trim :: "string \<Rightarrow> string" where
  "trim s = rev (dropWhile is_space (rev (dropWhile is_space s)))"

section \<open>Genre service\<close>

datatype genre_error =
  GenreNameRequired
  | GenreExists
  | GenreNotFound
  | GenreInUse string nat "(ident \<times> string \<times> string) list"

fun genre_status :: "genre_error \<Rightarrow> nat" where
  "genre_status GenreNameRequired = 400"
| "genre_status GenreExists = 409"
| "genre_status GenreNotFound = 404"
| "genre_status (GenreInUse n c bs) = 400"

text \<open>
  \<^verbatim>\<open>prisma.genre.findFirst({ where: { name, deleted_at: null } })\<close>
\<close>

definition find_genre_by_name :: "store \<Rightarrow> string \<Rightarrow> genre option" where
  "find_genre_by_name st n = find (\<lambda>g. g_name g = n \<and> g_deleted_at g = None) (genres st)"

text \<open>
  createGenre, on the \<^verbatim>\<open>name\<close> of the body (\<open>None\<close> when absent). The 201 carries the
  new row.
\<close>

definition createGenre :: "store \<Rightarrow> string option \<Rightarrow> (genre_error + genre) \<times> store" where
  "createGenre st name =
     (case name of
        None \<Rightarrow> (Inl GenreNameRequired, st)
      | Some n \<Rightarrow>
          if n = [] \<or> trim n = [] then (Inl GenreNameRequired, st)
          else (case find_genre_by_name st (trim n) of
                  Some exist \<Rightarrow> (Inl GenreExists, st)
                | None \<Rightarrow>
                    let g = \<lparr>g_id = fresh_id (issued st), g_name = trim n, g_deleted_at = None\<rparr>
                    in (Inr g, st\<lparr>genres := genres st @ [g], issued := Suc (issued st)\<rparr>)))"

text \<open>
  The books of \<^verbatim>\<open>include: { books: { where: { deleted_at: null } } }\<close>.
\<close>

definition active_books_of :: "store \<Rightarrow> genre \<Rightarrow> book list" where
  "active_books_of st g =
     filter (\<lambda>b. b_genre_id b = g_id g \<and> b_deleted_at b = None) (books st)"

text \<open>
  deleteGenre at clock reading \<open>now\<close>. The 200 carries id, name and the new
  \<^verbatim>\<open>deleted_at\<close>; the update is of a row the handler has just read.
\<close>

definition deleteGenre ::
  "timestamp \<Rightarrow> store \<Rightarrow> ident \<Rightarrow> (genre_error + ident \<times> string \<times> timestamp option) \<times> store" where
  "deleteGenre now st genre_id =
     (case find_genre_active st genre_id of
        None \<Rightarrow> (Inl GenreNotFound, st)
      | Some g \<Rightarrow>
          let bs = active_books_of st g in
          if length bs > 0
          then (Inl (GenreInUse (g_name g) (length bs)
                       (map (\<lambda>b. (b_id b, b_title b, b_writer b)) bs)), st)
          else
            let st' = st\<lparr>genres := map (\<lambda>x. if g_id x = genre_id
                                               then x\<lparr>g_deleted_at := Some now\<rparr> else x)
                                        (genres st)\<rparr>
            in (case find_genre_unique st' genre_id of
                  None \<Rightarrow> (Inl GenreNotFound, st')
                | Some d \<Rightarrow> (Inr (g_id d, g_name d, g_deleted_at d), st')))"

section \<open>Book service\<close>

datatype book_error =
  FieldsRequired
  | BookGenreNotFound
  | TitleExists
  | BookMissing
  | TitleEmpty
  | PriceNegative
  | StockNegative
  | BookInternalError

fun book_status :: "book_error \<Rightarrow> nat" where
  "book_status FieldsRequired = 400"
| "book_status BookGenreNotFound = 404"
| "book_status TitleExists = 409"
| "book_status BookMissing = 404"
| "book_status TitleEmpty = 400"
| "book_status PriceNegative = 400"
| "book_status StockNegative = 400"
| "book_status BookInternalError = 500"

text \<open>
  The body of createBook and updateBook: every field is optional in the JSON, \<open>None\<close>
  when absent; a present field holds a value of its column's type.
\<close>

record book_body =
  f_title :: "string option"
  f_writer :: "string option"
  f_publisher :: "string option"
  f_publication_year :: "int option"
  f_description :: "string option"
  f_price :: "real option"
  f_stock_quantity :: "int option"
  f_genre_id :: "string option"

text \<open>
  JavaScript's \<^verbatim>\<open>!x\<close>: true of an absent field, of the empty string
  and of 0.
\<close>

definition falsy_str :: "string option \<Rightarrow> bool" where
  "falsy_str x = (case x of None \<Rightarrow> True | Some s \<Rightarrow> s = [])"

definition falsy_int :: "int option \<Rightarrow> bool" where
  "falsy_int x = (case x of None \<Rightarrow> True | Some n \<Rightarrow> n = 0)"

definition falsy_real :: "real option \<Rightarrow> bool" where
  "falsy_real x = (case x of None \<Rightarrow> True | Some n \<Rightarrow> n = 0)"

text \<open>
  The first check of createBook; where it passes, all six fields are present, which is
  what the later reads of them rely on.
\<close>

definition missing_field :: "book_body \<Rightarrow> bool" where
  "missing_field d =
     (falsy_str (f_title d) \<or> falsy_str (f_writer d) \<or> falsy_str (f_publisher d) \<or>
      falsy_real (f_price d) \<or> falsy_int (f_stock_quantity d) \<or> falsy_str (f_genre_id d))"

text \<open>
  \<^verbatim>\<open>prisma.book.findFirst({ where: { title, deleted_at: null } })\<close>
\<close>

definition find_book_by_title :: "store \<Rightarrow> string \<Rightarrow> book option" where
  "find_book_by_title st t = find (\<lambda>b. b_title b = t \<and> b_deleted_at b = None) (books st)"

definition createBook :: "store \<Rightarrow> book_body \<Rightarrow> (book_error + book \<times> genre) \<times> store" where
  "createBook st d =
     (if missing_field d then (Inl FieldsRequired, st)
      else
        let cleanGenreId = trim (the (f_genre_id d)) in
        (case find_genre_active st cleanGenreId of
           None \<Rightarrow> (Inl BookGenreNotFound, st)
         | Some g \<Rightarrow>
             (case find_book_by_title st (trim (the (f_title d))) of
                Some exist \<Rightarrow> (Inl TitleExists, st)
              | None \<Rightarrow>
                  let b = \<lparr>b_id = fresh_id (issued st),
                           b_title = trim (the (f_title d)),
                           b_writer = trim (the (f_writer d)),
                           b_publisher = trim (the (f_publisher d)),
                           b_publication_year =
                             (if falsy_int (f_publication_year d) then None
                              else f_publication_year d),
                           b_description = map_option trim (f_description d),
                           b_price = the (f_price d),
                           b_stock_quantity = the (f_stock_quantity d),
                           b_genre_id = cleanGenreId,
                           b_deleted_at = None\<rparr>
                  in (Inr (b, g), st\<lparr>books := books st @ [b], issued := Suc (issued st)\<rparr>))))"

text \<open>
  The update data of updateBook: each present field trimmed or parsed (\<^verbatim>\<open>parseInt\<close> and
  \<^verbatim>\<open>parseFloat\<close> return a number of the column's type as it is).
\<close>

definition apply_update :: "book_body \<Rightarrow> book \<Rightarrow> book" where
  "apply_update u b =
     b\<lparr>b_title := (case f_title u of None \<Rightarrow> b_title b | Some t \<Rightarrow> t),
       b_writer := (case f_writer u of None \<Rightarrow> b_writer b | Some w \<Rightarrow> w),
       b_publisher := (case f_publisher u of None \<Rightarrow> b_publisher b | Some p \<Rightarrow> p),
       b_publication_year :=
         (case f_publication_year u of None \<Rightarrow> b_publication_year b | Some y \<Rightarrow> Some y),
       b_description :=
         (case f_description u of None \<Rightarrow> b_description b | Some t \<Rightarrow> Some t),
       b_price := (case f_price u of None \<Rightarrow> b_price b | Some p \<Rightarrow> p),
       b_stock_quantity :=
         (case f_stock_quantity u of None \<Rightarrow> b_stock_quantity b | Some s \<Rightarrow> s),
       b_genre_id := (case f_genre_id u of None \<Rightarrow> b_genre_id b | Some i \<Rightarrow> i)\<rparr>"

text \<open>
  \<^verbatim>\<open>if (updateData.title && updateData.title === "")\<close>: the left operand is the
  truthiness of the trimmed title.
\<close>

definition title_check_fails :: "string option \<Rightarrow> bool" where
  "title_check_fails t = (\<not> falsy_str t \<and> t = Some [])"

text \<open>
  updateBook. Modelled from the spec: a book's \<^verbatim>\<open>genre_id\<close> references an existing
  genre, so the store refuses an update to an id no genre row has (the handler's catch
  block answers 500); the schema with the constraint is not among the sources.
\<close>

definition updateBook :: "store \<Rightarrow> ident \<Rightarrow> book_body \<Rightarrow> (book_error + book \<times> genre) \<times> store" where
  "updateBook st req_book_id d =
     (let cleanBookId = trim req_book_id in
      case find_book_active st cleanBookId of
        None \<Rightarrow> (Inl BookMissing, st)
      | Some book \<Rightarrow>
          if \<not> falsy_str (f_genre_id d) \<and>
             find_genre_active st (trim (the (f_genre_id d))) = None
          then (Inl BookGenreNotFound, st)
          else
            let d1 = (if \<not> falsy_str (f_genre_id d)
                      then d\<lparr>f_genre_id := Some (trim (the (f_genre_id d)))\<rparr> else d);
                updateData =
                  d1\<lparr>f_title := map_option trim (f_title d1),
                     f_writer := map_option trim (f_writer d1),
                     f_publisher := map_option trim (f_publisher d1),
                     f_description := map_option trim (f_description d1)\<rparr>
            in
            if title_check_fails (f_title updateData) then (Inl TitleEmpty, st)
            else if (case f_price updateData of None \<Rightarrow> False | Some p \<Rightarrow> p < 0)
              then (Inl PriceNegative, st)
            else if (case f_stock_quantity updateData of None \<Rightarrow> False | Some s \<Rightarrow> s < 0)
              then (Inl StockNegative, st)
            else
              let st' = st\<lparr>books := map (\<lambda>b. if b_id b = cleanBookId
                                                then apply_update updateData b else b)
                                         (books st)\<rparr>
              in (case find_book_unique st' cleanBookId of
                    None \<Rightarrow> (Inl BookMissing, st)
                  | Some updated \<Rightarrow>
                      (case find_genre_unique st' (b_genre_id updated) of
                         None \<Rightarrow> (Inl BookInternalError, st)
                       | Some g \<Rightarrow> (Inr (updated, g), st'))))"

section \<open>Vocabulary of the properties\<close>

text \<open>A number that is an integer.\<close>

definition whole :: "real \<Rightarrow> bool" where
  "whole x = (of_int \<lfloor>x\<rfloor> = x)"

text \<open>An integer column stores an integer as it is.\<close>

definition keeps_integers :: "int_column \<Rightarrow> bool" where
  "keeps_integers col = (\<forall>n. col (of_int n) = Some n)"

text \<open>The integer a column keeps of a number (0 where it refuses the number).\<close>

definition kept :: "int_column \<Rightarrow> real \<Rightarrow> int" where
  "kept col q = (case col q of None \<Rightarrow> 0 | Some k \<Rightarrow> k)"

text \<open>
  The quantity a list of items asks of the book with id \<open>i\<close>: the sum over the
  items naming it.
\<close>

definition asked :: "tx_item list \<Rightarrow> ident \<Rightarrow> real" where
  "asked its i = sum_list (map quantity (filter (\<lambda>it. book_id it = i) its))"

text \<open>The same sum, of the integers the store keeps of the quantities.\<close>

definition purchased :: "int_column \<Rightarrow> tx_item list \<Rightarrow> ident \<Rightarrow> int" where
  "purchased col its i =
     sum_list (map (\<lambda>it. kept col (quantity it)) (filter (\<lambda>it. book_id it = i) its))"

text \<open>The items whose book id finds a row, deleted or not.\<close>

definition found :: "store \<Rightarrow> tx_item list \<Rightarrow> tx_item list" where
  "found st its = filter (\<lambda>it. find_book_unique st (book_id it) \<noteq> None) its"

text \<open>The price of the book row the id finds (0 when there is none).\<close>

definition book_price :: "store \<Rightarrow> ident \<Rightarrow> real" where
  "book_price st i = (case find_book_unique st i of None \<Rightarrow> 0 | Some b \<Rightarrow> b_price b)"

text \<open>The stock of the book row the id finds.\<close>

definition stock_of :: "store \<Rightarrow> ident \<Rightarrow> int option" where
  "stock_of st i = map_option b_stock_quantity (find_book_unique st i)"

text \<open>
  An item whose book exists, is not deleted and has at least the requested quantity in
  stock.
\<close>

definition in_stock :: "store \<Rightarrow> tx_item \<Rightarrow> bool" where
  "in_stock st it =
     (case find_book_active st (book_id it) of
        None \<Rightarrow> False
      | Some b \<Rightarrow> quantity it \<le> of_int (b_stock_quantity b))"

text \<open>An item that passes every check of the validation pass.\<close>

definition item_ok :: "store \<Rightarrow> tx_item \<Rightarrow> bool" where
  "item_ok st it =
     (book_id it \<noteq> [] \<and> 0 < quantity it \<and>
      (case find_book_active st (book_id it) of
         None \<Rightarrow> False
       | Some b \<Rightarrow> quantity it \<le> of_int (b_stock_quantity b)))"

text \<open>
  What the database keeps of a store: book ids are a primary key and not empty, a book
  references an existing genre and an order item an existing order, and the id the
  store issues next names no order yet.
\<close>

definition store_ok :: "store \<Rightarrow> bool" where
  "store_ok st =
     (distinct (map b_id (books st)) \<and>
      list_all (\<lambda>b. b_id b \<noteq> []) (books st) \<and>
      list_all (\<lambda>b. find_genre_unique st (b_genre_id b) \<noteq> None) (books st) \<and>
      list_all (\<lambda>oi. find_order st (oi_order_id oi) \<noteq> None) (order_items st) \<and>
      find_order st (fresh_id (issued st)) = None)"

text \<open>
  The genre an order item counts for, in the spec's words: the name of its book's
  genre, when neither the book nor the genre is deleted.
\<close>

definition item_genre_name :: "store \<Rightarrow> order_item \<Rightarrow> string option" where
  "item_genre_name st oi =
     (case find_book_unique st (oi_book_id oi) of
        None \<Rightarrow> None
      | Some b \<Rightarrow>
          if b_deleted_at b = None
          then (case find_genre_unique st (b_genre_id b) of
                  None \<Rightarrow> None
                | Some g \<Rightarrow> if g_deleted_at g = None then Some (g_name g) else None)
          else None)"

text \<open>The number of order items that count for the genre name \<open>n\<close>.\<close>

definition genre_item_count :: "store \<Rightarrow> string \<Rightarrow> nat" where
  "genre_item_count st n =
     length (filter (\<lambda>oi. item_genre_name st oi = Some n) (order_items st))"

section \<open>An example store\<close>

text \<open>
  The store of the spec's scenarios: one user, the genre Sci-Fi, and the book Dune at
  price 100 with 5 in stock.
\<close>

definition dune :: book where
  "dune = \<lparr>b_id = ''dune'', b_title = ''Dune'', b_writer = ''Herbert'',
           b_publisher = ''Chilton'', b_publication_year = Some 1965,
           b_description = None, b_price = 100, b_stock_quantity = 5,
           b_genre_id = ''g1'', b_deleted_at = None\<rparr>"

definition scifi :: genre where
  "scifi = \<lparr>g_id = ''g1'', g_name = ''Sci-Fi'', g_deleted_at = None\<rparr>"

definition shop :: store where
  "shop = \<lparr>users = [\<lparr>u_id = ''u1'', u_username = ''ann'', u_email = ''ann@example.org''\<rparr>],
           genres = [scifi],
           books = [dune],
           orders = [], order_items = [], issued = 0\<rparr>"

text \<open>
  Two integer columns: one keeps the integer part of a number, the other refuses a
  number that is not an integer.
\<close>

definition truncating :: int_column where
  "truncating x = Some \<lfloor>x\<rfloor>"

definition refusing :: int_column where
  "refusing x = (if whole x then Some \<lfloor>x\<rfloor> else None)"

text \<open>A request of user u1 for Dune, one item per quantity of the list.\<close>

definition buy :: "real list \<Rightarrow> tx_request" where
  "buy qs = \<lparr>req_user_id = Some ''u1'',
             req_items = Some (map (\<lambda>q. \<lparr>book_id = ''dune'', quantity = q\<rparr>) qs)\<rparr>"


text \<open>Two items: one copy of a book the store does not have, and two copies of Dune.\<close>

definition ghost_and_dune :: "tx_item list" where
  "ghost_and_dune =
     [\<lparr>book_id = ''ghost'', quantity = 1\<rparr>, \<lparr>book_id = ''dune'', quantity = 2\<rparr>]"

text \<open>The example store after Dune was soft-deleted.\<close>

definition shop_dune_deleted :: store where
  "shop_dune_deleted = shop\<lparr>books := [dune\<lparr>b_deleted_at := Some 3\<rparr>]\<rparr>"

text \<open>An update that sets the title to blanks only, and nothing else.\<close>

definition blank_title :: book_body where
  "blank_title = \<lparr>f_title = Some ''   '', f_writer = None, f_publisher = None,
                  f_publication_year = None, f_description = None, f_price = None,
                  f_stock_quantity = None, f_genre_id = None\<rparr>"

text \<open>A createBook body with all six required fields, at price 0.\<close>

definition free_book :: book_body where
  "free_book = \<lparr>f_title = Some ''Emma'', f_writer = Some ''Austen'',
                 f_publisher = Some ''Murray'', f_publication_year = None,
                 f_description = None, f_price = Some 0, f_stock_quantity = Some 4,
                 f_genre_id = Some ''g1''\<rparr>"

text \<open>
  A store with two genres and two orders: two order items for Dune (Sci-Fi) and one
  for Odes (Poetry).
\<close>

definition odes :: book where
  "odes = \<lparr>b_id = ''odes'', b_title = ''Odes'', b_writer = ''Keats'',
           b_publisher = ''Taylor'', b_publication_year = None,
           b_description = None, b_price = 50, b_stock_quantity = 9,
           b_genre_id = ''g2'', b_deleted_at = None\<rparr>"

definition busy_shop :: store where
  "busy_shop =
     shop\<lparr>genres := [scifi, \<lparr>g_id = ''g2'', g_name = ''Poetry'', g_deleted_at = None\<rparr>],
          books := [dune, odes],
          orders := [\<lparr>o_id = ''o1'', o_user_id = ''u1'', o_totalPrice = 300, o_created_at = 1\<rparr>,
                     \<lparr>o_id = ''o2'', o_user_id = ''u1'', o_totalPrice = 100, o_created_at = 2\<rparr>],
          order_items :=
            [\<lparr>oi_id = ''i1'', oi_order_id = ''o1'', oi_book_id = ''dune'', oi_quantity = 2\<rparr>,
             \<lparr>oi_id = ''i2'', oi_order_id = ''o1'', oi_book_id = ''odes'', oi_quantity = 2\<rparr>,
             \<lparr>oi_id = ''i3'', oi_order_id = ''o2'', oi_book_id = ''dune'', oi_quantity = 1\<rparr>]\<rparr>"

text \<open>A createBook body with all six required fields, at stock -5.\<close>

definition returned_stock :: book_body where
  "returned_stock = \<lparr>f_title = Some ''Emma'', f_writer = Some ''Austen'',
                 f_publisher = Some ''Murray'', f_publication_year = None,
                 f_description = None, f_price = Some 10, f_stock_quantity = Some (- 5),
                 f_genre_id = Some ''g1''\<rparr>"

section \<open>Lookups and the materialization loop\<close>

lemma find_map_same_key:
  assumes "\<And>x. k (f x) = k x"
  shows "find (\<lambda>x. k x = i) (map f xs) = map_option f (find (\<lambda>x. k x = i) xs)"
  using assms by (induction xs) auto

lemma find_Some_pred: "find P xs = Some x \<Longrightarrow> P x"
  by (induction xs) (auto split: if_splits)

lemma find_Some_mem: "find P xs = Some x \<Longrightarrow> x \<in> set xs"
  by (induction xs) (auto split: if_splits)

lemma find_None_key: "find (\<lambda>x. k x = i) xs = None \<Longrightarrow> x \<in> set xs \<Longrightarrow> k x \<noteq> i"
  by (induction xs) (auto split: if_splits)

lemma find_weaken: "find (\<lambda>x. P x \<and> Q x) xs = Some x \<Longrightarrow> find P xs \<noteq> None"
  by (induction xs) (auto split: if_splits)

lemma find_distinct_key:
  "distinct (map k xs) \<Longrightarrow> find (\<lambda>x. k x = i \<and> Q x) xs = Some x \<Longrightarrow>
   find (\<lambda>x. k x = i) xs = Some x"
proof (induction xs)
  case Nil
  then show ?case by simp
next
  case (Cons y ys)
  show ?case
  proof (cases "k y = i")
    case True
    show ?thesis
    proof (cases "Q y")
      case True
      with \<open>k y = i\<close> Cons.prems show ?thesis by simp
    next
      case False
      with \<open>k y = i\<close> Cons.prems have "find (\<lambda>x. k x = i \<and> Q x) ys = Some x" by simp
      then have xin: "x \<in> set ys" and kx: "k x = i"
        by (auto dest: find_Some_mem find_Some_pred)
      from xin have "k x \<in> k ` set ys" by (rule imageI)
      with \<open>k y = i\<close> kx Cons.prems(1) have False by simp
      then show ?thesis ..
    qed
  next
    case False
    with Cons show ?thesis by simp
  qed
qed

lemma filter_distinct_key:
  "distinct (map k xs) \<Longrightarrow>
   filter (\<lambda>x. k x = i) xs = (case find (\<lambda>x. k x = i) xs of None \<Rightarrow> [] | Some x \<Rightarrow> [x])"
proof (induction xs)
  case Nil
  then show ?case by simp
next
  case (Cons y ys)
  show ?case
  proof (cases "k y = i")
    case True
    with Cons.prems have "i \<notin> k ` set ys" by simp
    then have "\<forall>x\<in>set ys. k x \<noteq> i" by blast
    then have "filter (\<lambda>x. k x = i) ys = []" by (simp add: filter_empty_conv)
    with True show ?thesis by simp
  next
    case False
    with Cons show ?thesis by simp
  qed
qed

lemma distinct_key_eq:
  "distinct (map k xs) \<Longrightarrow> x \<in> set xs \<Longrightarrow> y \<in> set xs \<Longrightarrow> k x = k y \<Longrightarrow> x = y"
  by (auto simp: distinct_map dest: inj_onD)

lemma find_append_new:
  "find P xs = None \<Longrightarrow> P x \<Longrightarrow> find P (xs @ [x]) = Some x"
  by (induction xs) (auto split: if_splits)

lemma map_combine:
  "map a xs = map a' ys \<Longrightarrow> map b xs = map b' ys \<Longrightarrow>
   map (\<lambda>x. h (a x) (b x)) xs = map (\<lambda>y. h (a' y) (b' y)) ys"
proof (induction xs arbitrary: ys)
  case Nil
  then show ?case by simp
next
  case (Cons x xs)
  then show ?case by (cases ys) auto
qed

lemma find_book_unique_id: "find_book_unique st i = Some b \<Longrightarrow> b_id b = i"
  unfolding find_book_unique_def by (drule find_Some_pred) simp

text \<open>A change of the stock column alone keeps every lookup by id.\<close>

lemma find_book_unique_restocked:
  assumes "books st' = map (\<lambda>b. b\<lparr>b_stock_quantity := b_stock_quantity b - d (b_id b)\<rparr>) (books st)"
  shows "find_book_unique st' i =
           map_option (\<lambda>b. b\<lparr>b_stock_quantity := b_stock_quantity b - d i\<rparr>)
             (find_book_unique st i)"
proof -
  have "find (\<lambda>b. b_id b = i)
          (map (\<lambda>b. b\<lparr>b_stock_quantity := b_stock_quantity b - d (b_id b)\<rparr>) (books st)) =
        map_option (\<lambda>b. b\<lparr>b_stock_quantity := b_stock_quantity b - d (b_id b)\<rparr>)
          (find (\<lambda>b. b_id b = i) (books st))"
    by (rule find_map_same_key) simp
  then show ?thesis
    by (cases "find (\<lambda>b. b_id b = i) (books st)")
       (auto simp: find_book_unique_def assms dest: find_Some_pred)
qed

lemma found_restocked:
  assumes "books st' = map (\<lambda>b. b\<lparr>b_stock_quantity := b_stock_quantity b - d (b_id b)\<rparr>) (books st)"
  shows "found st' its = found st its"
  by (simp add: found_def find_book_unique_restocked [OF assms])

lemma book_price_restocked:
  assumes "books st' = map (\<lambda>b. b\<lparr>b_stock_quantity := b_stock_quantity b - d (b_id b)\<rparr>) (books st)"
  shows "book_price st' i = book_price st i"
  by (cases "find_book_unique st i")
     (simp_all add: book_price_def find_book_unique_restocked [OF assms])

lemma stock_of_restocked:
  assumes "books st' = map (\<lambda>b. b\<lparr>b_stock_quantity := b_stock_quantity b - d (b_id b)\<rparr>) (books st)"
  shows "stock_of st' i = map_option (\<lambda>s. s - d i) (stock_of st i)"
  by (cases "find_book_unique st i")
     (simp_all add: stock_of_def find_book_unique_restocked [OF assms])

text \<open>One step of the loop that does not throw: the skip, or the three writes.\<close>

lemma process_item_cases:
  assumes "process_item col oid (st, tq, tp) it = Inr (st1, tq1, tp1)"
  shows "(find_book_unique st (book_id it) = None \<and> st1 = st \<and> tq1 = tq \<and> tp1 = tp) \<or>
         (\<exists>b k. find_book_unique st (book_id it) = Some b \<and> col (quantity it) = Some k \<and>
                st1 = decrement_stock (create_order_item st oid (book_id it) k) (book_id it) k \<and>
                tq1 = tq + quantity it \<and> tp1 = tp + b_price b * quantity it)"
proof (cases "find_book_unique st (book_id it)")
  case None
  with assms show ?thesis by (simp add: process_item_def)
next
  case (Some b)
  then have "b_id b = book_id it" by (rule find_book_unique_id)
  with assms Some show ?thesis
    by (auto simp: process_item_def Let_def split: option.splits)
qed

lemma purchased_Cons:
  "purchased col (it # its) i = purchased col [it] i + purchased col its i"
  by (simp add: purchased_def)

lemma process_item_books:
  assumes "process_item col oid (st, tq, tp) it = Inr (st1, tq1, tp1)"
  shows "books st1 =
           map (\<lambda>b. b\<lparr>b_stock_quantity := b_stock_quantity b - purchased col [it] (b_id b)\<rparr>)
             (books st)"
  using process_item_cases [OF assms]
proof (elim disjE conjE exE)
  assume none: "find_book_unique st (book_id it) = None" and same: "st1 = st"
  then have "\<forall>b\<in>set (books st). purchased col [it] (b_id b) = 0"
    by (auto simp: purchased_def find_book_unique_def dest: find_None_key)
  then have "map (\<lambda>b. b\<lparr>b_stock_quantity := b_stock_quantity b - purchased col [it] (b_id b)\<rparr>)
               (books st) = map (\<lambda>b. b) (books st)"
    by (intro map_cong) auto
  with same show ?thesis by simp
next
  fix b k
  assume "col (quantity it) = Some k"
    and "st1 = decrement_stock (create_order_item st oid (book_id it) k) (book_id it) k"
  then show ?thesis
    by (auto simp: decrement_stock_def create_order_item_def purchased_def kept_def)
qed

lemma materialize_Cons:
  assumes "materialize col oid (st, tq, tp) (it # its) = Inr (st', tq', tp')"
  obtains st1 tq1 tp1 where "process_item col oid (st, tq, tp) it = Inr (st1, tq1, tp1)"
    and "materialize col oid (st1, tq1, tp1) its = Inr (st', tq', tp')"
  using assms by (auto split: sum.splits)

lemma materialize_books:
  "materialize col oid (st, tq, tp) its = Inr (st', tq', tp') \<Longrightarrow>
   books st' =
     map (\<lambda>b. b\<lparr>b_stock_quantity := b_stock_quantity b - purchased col its (b_id b)\<rparr>)
       (books st)"
proof (induction its arbitrary: st tq tp)
  case Nil
  then show ?case by (simp add: purchased_def)
next
  case (Cons it its)
  from Cons.prems obtain st1 tq1 tp1
    where p: "process_item col oid (st, tq, tp) it = Inr (st1, tq1, tp1)"
      and m: "materialize col oid (st1, tq1, tp1) its = Inr (st', tq', tp')"
    by (rule materialize_Cons)
  show ?case
    unfolding Cons.IH [OF m] process_item_books [OF p]
    by (simp add: purchased_Cons [of col it its] algebra_simps)
qed

lemma materialize_frame:
  "materialize col oid (st, tq, tp) its = Inr (st', tq', tp') \<Longrightarrow>
   users st' = users st \<and> genres st' = genres st \<and> orders st' = orders st"
proof (induction its arbitrary: st tq tp)
  case Nil
  then show ?case by simp
next
  case (Cons it its)
  from Cons.prems obtain st1 tq1 tp1
    where p: "process_item col oid (st, tq, tp) it = Inr (st1, tq1, tp1)"
      and m: "materialize col oid (st1, tq1, tp1) its = Inr (st', tq', tp')"
    by (rule materialize_Cons)
  from process_item_cases [OF p]
  have "users st1 = users st \<and> genres st1 = genres st \<and> orders st1 = orders st"
    by (auto simp: create_order_item_def decrement_stock_def)
  with Cons.IH [OF m] show ?case by simp
qed

text \<open>
  The totals of the loop: every item whose book id finds a row adds its quantity and
  price times quantity, the others add nothing.
\<close>

lemma materialize_totals:
  "materialize col oid (st, tq, tp) its = Inr (st', tq', tp') \<Longrightarrow>
   tq' = tq + sum_list (map quantity (found st its)) \<and>
   tp' = tp + sum_list (map (\<lambda>it. book_price st (book_id it) * quantity it) (found st its))"
proof (induction its arbitrary: st tq tp)
  case Nil
  then show ?case by (simp add: found_def)
next
  case (Cons it its)
  from Cons.prems obtain st1 tq1 tp1
    where p: "process_item col oid (st, tq, tp) it = Inr (st1, tq1, tp1)"
      and m: "materialize col oid (st1, tq1, tp1) its = Inr (st', tq', tp')"
    by (rule materialize_Cons)
  note b1 = process_item_books [OF p]
  have same: "found st1 its = found st its" "\<And>i. book_price st1 i = book_price st i"
    using b1 by (rule found_restocked, rule book_price_restocked)
  from process_item_cases [OF p]
  have "tq1 = tq + sum_list (map quantity (found st [it])) \<and>
        tp1 = tp + sum_list (map (\<lambda>it. book_price st (book_id it) * quantity it) (found st [it]))"
    by (auto simp: found_def book_price_def)
  moreover have "found st (it # its) = found st [it] @ found st its"
    by (simp add: found_def)
  ultimately show ?case using Cons.IH [OF m] by (simp add: same)
qed

text \<open>The order items of the loop: one for every item whose book id finds a row.\<close>

lemma materialize_order_items:
  "materialize col oid (st, tq, tp) its = Inr (st', tq', tp') \<Longrightarrow>
   \<exists>news. order_items st' = order_items st @ news \<and>
          map oi_order_id news = map (\<lambda>it. oid) (found st its) \<and>
          map oi_book_id news = map book_id (found st its) \<and>
          map oi_quantity news = map (\<lambda>it. kept col (quantity it)) (found st its)"
proof (induction its arbitrary: st tq tp)
  case Nil
  then show ?case by (simp add: found_def)
next
  case (Cons it its)
  from Cons.prems obtain st1 tq1 tp1
    where p: "process_item col oid (st, tq, tp) it = Inr (st1, tq1, tp1)"
      and m: "materialize col oid (st1, tq1, tp1) its = Inr (st', tq', tp')"
    by (rule materialize_Cons)
  have same: "found st1 its = found st its"
    using process_item_books [OF p] by (rule found_restocked)
  from process_item_cases [OF p]
  obtain xs where xs: "order_items st1 = order_items st @ xs"
    "map oi_order_id xs = map (\<lambda>it. oid) (found st [it])"
    "map oi_book_id xs = map book_id (found st [it])"
    "map oi_quantity xs = map (\<lambda>it. kept col (quantity it)) (found st [it])"
  proof (elim disjE conjE exE)
    assume "find_book_unique st (book_id it) = None" "st1 = st"
    then show ?thesis by (intro that [of "[]"]) (simp_all add: found_def)
  next
    fix b k
    assume "find_book_unique st (book_id it) = Some b" "col (quantity it) = Some k"
      "st1 = decrement_stock (create_order_item st oid (book_id it) k) (book_id it) k"
    then show ?thesis
      by (intro that [of "[\<lparr>oi_id = fresh_id (issued st), oi_order_id = oid,
                              oi_book_id = book_id it, oi_quantity = k\<rparr>]"])
         (simp_all add: found_def decrement_stock_def create_order_item_def kept_def)
  qed
  from Cons.IH [OF m] obtain news where n: "order_items st' = order_items st1 @ news"
    "map oi_order_id news = map (\<lambda>it. oid) (found st its)"
    "map oi_book_id news = map book_id (found st its)"
    "map oi_quantity news = map (\<lambda>it. kept col (quantity it)) (found st its)"
    by (auto simp: same)
  have split: "found st (it # its) = found st [it] @ found st its"
    by (simp add: found_def)
  show ?case
    by (rule exI [of _ "xs @ news"]) (simp add: xs n split)
qed

text \<open>
  The loop throws only where the store refuses the quantity of an item whose book id
  finds a row.
\<close>

lemma materialize_accepts:
  "list_all (\<lambda>it. col (quantity it) \<noteq> None) (found st its) \<Longrightarrow>
   \<exists>st' tq' tp'. materialize col oid (st, tq, tp) its = Inr (st', tq', tp')"
proof (induction its arbitrary: st tq tp)
  case Nil
  then show ?case by simp
next
  case (Cons it its)
  have "\<exists>st1 tq1 tp1. process_item col oid (st, tq, tp) it = Inr (st1, tq1, tp1)"
  proof (cases "find_book_unique st (book_id it)")
    case None
    then show ?thesis by (simp add: process_item_def)
  next
    case (Some b)
    with Cons.prems obtain k where "col (quantity it) = Some k"
      by (auto simp: found_def)
    with Some show ?thesis by (simp add: process_item_def Let_def)
  qed
  then obtain st1 tq1 tp1 where p: "process_item col oid (st, tq, tp) it = Inr (st1, tq1, tp1)"
    by blast
  have "found st1 its = found st its"
    using process_item_books [OF p] by (rule found_restocked)
  moreover from Cons.prems have "list_all (\<lambda>it. col (quantity it) \<noteq> None) (found st its)"
    by (auto simp: found_def list_all_iff)
  ultimately have "list_all (\<lambda>it. col (quantity it) \<noteq> None) (found st1 its)" by simp
  from Cons.IH [OF this, of tq1 tp1] p show ?case by simp
qed

lemma validate_items_None: "validate_items st its = None \<longleftrightarrow> list_all (item_ok st) its"
  by (induction its) (auto simp: item_ok_def split: option.splits)

lemma item_ok_found: "item_ok st it \<Longrightarrow> find_book_unique st (book_id it) \<noteq> None"
  by (auto simp: item_ok_def find_book_active_def find_book_unique_def
           split: option.splits dest: find_weaken)

lemma found_all: "list_all (item_ok st) its \<Longrightarrow> found st its = its"
  by (auto simp: found_def list_all_iff filter_id_conv dest: item_ok_found)

lemma item_views_ok:
  assumes "list_all (\<lambda>oi. case find_book_unique st (oi_book_id oi) of
                            None \<Rightarrow> False
                          | Some b \<Rightarrow> find_genre_unique st (b_genre_id b) \<noteq> None) ois"
  shows "\<exists>vs. item_views st ois = Some vs \<and>
           map (\<lambda>v. bs_id (iv_book v)) vs = map oi_book_id ois \<and>
           map iv_quantity vs = map oi_quantity ois \<and>
           map (\<lambda>v. bs_price (iv_book v)) vs = map (\<lambda>oi. book_price st (oi_book_id oi)) ois \<and>
           map iv_subtotal vs =
             map (\<lambda>oi. book_price st (oi_book_id oi) * of_int (oi_quantity oi)) ois"
  using assms
proof (induction ois)
  case Nil
  then show ?case by simp
next
  case (Cons oi ois)
  from Cons.prems obtain b g where b: "find_book_unique st (oi_book_id oi) = Some b"
    and g: "find_genre_unique st (b_genre_id b) = Some g"
    by (auto split: option.splits)
  from b have bid: "b_id b = oi_book_id oi" by (rule find_book_unique_id)
  from Cons obtain vs where vs: "item_views st ois = Some vs"
    "map (\<lambda>v. bs_id (iv_book v)) vs = map oi_book_id ois"
    "map iv_quantity vs = map oi_quantity ois"
    "map (\<lambda>v. bs_price (iv_book v)) vs = map (\<lambda>oi. book_price st (oi_book_id oi)) ois"
    "map iv_subtotal vs = map (\<lambda>oi. book_price st (oi_book_id oi) * of_int (oi_quantity oi)) ois"
    by auto
  show ?case
    using b g bid vs by (simp add: item_view_of_def book_price_def)
qed

lemma item_views_subtotal:
  "item_views st ois = Some vs \<Longrightarrow>
   list_all (\<lambda>v. iv_subtotal v = bs_price (iv_book v) * of_int (iv_quantity v)) vs"
proof (induction ois arbitrary: vs)
  case Nil
  then show ?case by simp
next
  case (Cons oi ois)
  then show ?case
    by (auto simp: item_view_of_def split: option.splits)
qed

text \<open>
  The handler from the order row on, on a store that keeps its keys and references and
  accepts the quantities it is to store: it answers the 201; the totals, the returned items and the
  new order items are those of the items whose book id finds a row, and every book row
  has its stock lowered by what the store kept of the quantities asked of it.
\<close>

lemma place_order_result:
  assumes ok: "store_ok st"
    and user: "find_user st uid \<noteq> None"
    and accepts: "list_all (\<lambda>it. col (quantity it) \<noteq> None) (found st its)"
  shows "\<exists>r st'. place_order col now st uid its = (Inr r, st') \<and>
           total_quantity r = sum_list (map quantity (found st its)) \<and>
           total_price r =
             sum_list (map (\<lambda>it. book_price st (book_id it) * quantity it) (found st its)) \<and>
           map (\<lambda>v. bs_id (iv_book v)) (tx_items r) = map book_id (found st its) \<and>
           map iv_quantity (tx_items r) = map (\<lambda>it. kept col (quantity it)) (found st its) \<and>
           map (\<lambda>v. bs_price (iv_book v)) (tx_items r) =
             map (\<lambda>it. book_price st (book_id it)) (found st its) \<and>
           map iv_subtotal (tx_items r) =
             map (\<lambda>it. book_price st (book_id it) * of_int (kept col (quantity it)))
               (found st its) \<and>
           list_all (\<lambda>v. iv_subtotal v = bs_price (iv_book v) * of_int (iv_quantity v))
             (tx_items r) \<and>
           books st' =
             map (\<lambda>b. b\<lparr>b_stock_quantity := b_stock_quantity b - purchased col its (b_id b)\<rparr>)
               (books st) \<and>
           (\<exists>news. order_items st' = order_items st @ news \<and>
                   map oi_book_id news = map book_id (found st its) \<and>
                   map oi_quantity news = map (\<lambda>it. kept col (quantity it)) (found st its))"
proof -
  define oid where "oid = fresh_id (issued st)"
  define st1 where "st1 = create_order now st uid"
  have books1: "books st1 = books st" and items1: "order_items st1 = order_items st"
    and genres1: "genres st1 = genres st" and users1: "users st1 = users st"
    by (simp_all add: st1_def create_order_def)
  have find1: "\<And>i. find_book_unique st1 i = find_book_unique st i"
    by (simp add: find_book_unique_def books1)
  have price1: "\<And>i. book_price st1 i = book_price st i"
    by (simp add: book_price_def find1)
  have found1: "found st1 its = found st its"
    by (simp add: found_def find1)
  from accepts have "list_all (\<lambda>it. col (quantity it) \<noteq> None) (found st1 its)"
    by (simp add: found1)
  from materialize_accepts [OF this] obtain st2 tq tp
    where m: "materialize col oid (st1, 0, 0) its = Inr (st2, tq, tp)" by blast
  define st3 where "st3 = update_order_total st2 oid tp"
  from materialize_totals [OF m]
  have tq: "tq = sum_list (map quantity (found st its))"
    and tp: "tp = sum_list (map (\<lambda>it. book_price st (book_id it) * quantity it) (found st its))"
    by (simp_all add: price1 found1)
  from materialize_order_items [OF m] obtain news where
    news: "order_items st2 = order_items st @ news"
      "map oi_order_id news = map (\<lambda>it. oid) (found st its)"
      "map oi_book_id news = map book_id (found st its)"
      "map oi_quantity news = map (\<lambda>it. kept col (quantity it)) (found st its)"
    by (auto simp: items1 found1)
  from materialize_frame [OF m]
  have frame2: "users st2 = users st" "genres st2 = genres st" "orders st2 = orders st1"
    by (simp_all add: users1 genres1)
  have books2: "books st2 =
      map (\<lambda>b. b\<lparr>b_stock_quantity := b_stock_quantity b - purchased col its (b_id b)\<rparr>) (books st)"
    using materialize_books [OF m] by (simp add: books1)
  have frame3: "users st3 = users st" "genres st3 = genres st" "books st3 = books st2"
    "order_items st3 = order_items st2"
    by (simp_all add: st3_def update_order_total_def frame2)
  have books3: "books st3 =
      map (\<lambda>b. b\<lparr>b_stock_quantity := b_stock_quantity b - purchased col its (b_id b)\<rparr>) (books st)"
    by (simp add: frame3 books2)
  note find3 = find_book_unique_restocked [OF books3]
  note price3 = book_price_restocked [OF books3]
  \<comment> \<open>the order row is found again\<close>
  have no_old: "find (\<lambda>ord. o_id ord = oid) (orders st) = None"
    using ok by (simp add: store_ok_def find_order_def oid_def)
  have "find (\<lambda>ord. o_id ord = oid) (orders st1) \<noteq> None"
    using no_old by (simp add: st1_def create_order_def oid_def find_append_new)
  moreover have "find (\<lambda>ord. o_id ord = oid)
               (map (\<lambda>ord. if o_id ord = oid then ord\<lparr>o_totalPrice := tp\<rparr> else ord) (orders st1))
             = map_option (\<lambda>ord. if o_id ord = oid then ord\<lparr>o_totalPrice := tp\<rparr> else ord)
                 (find (\<lambda>ord. o_id ord = oid) (orders st1))"
    by (rule find_map_same_key) simp
  ultimately obtain ord where ord: "find_order st3 oid = Some ord"
    by (auto simp: find_order_def st3_def update_order_total_def frame2)
  obtain usr where usr: "find_user st3 uid = Some usr"
    using user by (auto simp: find_user_def frame3)
  \<comment> \<open>the items of the new order are the ones the loop created\<close>
  have "filter (\<lambda>oi. oi_order_id oi = oid) (order_items st) = []"
  proof -
    have "\<forall>oi\<in>set (order_items st). oi_order_id oi \<noteq> oid"
      using ok by (auto simp: store_ok_def list_all_iff oid_def)
    then show ?thesis by (simp add: filter_empty_conv)
  qed
  moreover have "filter (\<lambda>oi. oi_order_id oi = oid) news = news"
  proof -
    have "\<forall>x\<in>set (map oi_order_id news). x = oid" by (simp add: news(2))
    then show ?thesis by (simp add: filter_id_conv)
  qed
  ultimately have items3: "filter (\<lambda>oi. oi_order_id oi = oid) (order_items st3) = news"
    by (simp add: frame3 news(1))
  have shapes: "list_all (\<lambda>oi. case find_book_unique st3 (oi_book_id oi) of
                            None \<Rightarrow> False
                          | Some b \<Rightarrow> find_genre_unique st3 (b_genre_id b) \<noteq> None) news"
  proof -
    have "\<forall>i\<in>set (map oi_book_id news).
            (case find_book_unique st3 i of None \<Rightarrow> False
             | Some b \<Rightarrow> find_genre_unique st3 (b_genre_id b) \<noteq> None)"
    proof
      fix i assume "i \<in> set (map oi_book_id news)"
      then have "find_book_unique st i \<noteq> None"
        by (auto simp: news(3) found_def)
      then obtain b where b: "find_book_unique st i = Some b" by auto
      then have "b \<in> set (books st)" by (auto simp: find_book_unique_def dest: find_Some_mem)
      with ok have "find_genre_unique st (b_genre_id b) \<noteq> None"
        by (auto simp: store_ok_def list_all_iff)
      then show "case find_book_unique st3 i of None \<Rightarrow> False
                 | Some b \<Rightarrow> find_genre_unique st3 (b_genre_id b) \<noteq> None"
        by (simp add: find3 b find_genre_unique_def frame3)
    qed
    then show ?thesis by (simp add: list_all_iff)
  qed
  from item_views_ok [OF shapes] obtain vs where vs: "item_views st3 news = Some vs"
    "map (\<lambda>v. bs_id (iv_book v)) vs = map oi_book_id news"
    "map iv_quantity vs = map oi_quantity news"
    "map (\<lambda>v. bs_price (iv_book v)) vs = map (\<lambda>oi. book_price st3 (oi_book_id oi)) news"
    "map iv_subtotal vs = map (\<lambda>oi. book_price st3 (oi_book_id oi) * of_int (oi_quantity oi)) news"
    by blast
  have prices: "map (\<lambda>oi. book_price st (oi_book_id oi)) news =
                map (\<lambda>it. book_price st (book_id it)) (found st its)"
    using map_combine [OF news(3) news(3), of "\<lambda>i j. book_price st i"] by simp
  have subs: "map (\<lambda>oi. book_price st (oi_book_id oi) * of_int (oi_quantity oi)) news =
              map (\<lambda>it. book_price st (book_id it) * of_int (kept col (quantity it))) (found st its)"
    using map_combine [OF news(3) news(4), of "\<lambda>i q. book_price st i * of_int q"] by simp
  let ?r = "\<lparr>transaction_id = o_id ord, tx_user = user_summary_of usr, total_quantity = tq,
             total_price = tp, tx_items = vs, created_at = o_created_at ord\<rparr>"
  have "place_order col now st uid its = (Inr ?r, st3)"
    using m ord usr vs(1) items3
    by (simp add: place_order_def Let_def oid_def [symmetric] st1_def [symmetric]
          st3_def [symmetric])
  moreover have "total_quantity ?r = sum_list (map quantity (found st its))" by (simp add: tq)
  moreover have "total_price ?r =
      sum_list (map (\<lambda>it. book_price st (book_id it) * quantity it) (found st its))"
    by (simp add: tp)
  moreover have "map (\<lambda>v. bs_id (iv_book v)) (tx_items ?r) = map book_id (found st its)"
    by (simp add: vs(2) news(3))
  moreover have "map iv_quantity (tx_items ?r) = map (\<lambda>it. kept col (quantity it)) (found st its)"
    by (simp add: vs(3) news(4))
  moreover have "map (\<lambda>v. bs_price (iv_book v)) (tx_items ?r) =
      map (\<lambda>it. book_price st (book_id it)) (found st its)"
    by (simp add: vs(4) price3 prices)
  moreover have "map iv_subtotal (tx_items ?r) =
      map (\<lambda>it. book_price st (book_id it) * of_int (kept col (quantity it))) (found st its)"
    by (simp add: vs(5) price3 subs)
  moreover have "list_all (\<lambda>v. iv_subtotal v = bs_price (iv_book v) * of_int (iv_quantity v))
                   (tx_items ?r)"
    using vs(1) by (simp add: item_views_subtotal)
  moreover have "\<exists>news. order_items st3 = order_items st @ news \<and>
                   map oi_book_id news = map book_id (found st its) \<and>
                   map oi_quantity news = map (\<lambda>it. kept col (quantity it)) (found st its)"
    using news by (auto simp: frame3)
  ultimately show ?thesis using books3 by blast
qed

lemma createTransaction_validated:
  assumes "req_user_id req = Some uid" "uid \<noteq> []" "find_user st uid \<noteq> None"
    and "req_items req = Some its" "its \<noteq> []" "validate_items st its = None"
  shows "createTransaction col now st req = place_order col now st uid its"
  using assms by (auto simp: createTransaction_def)

lemma createTransaction_success:
  assumes "createTransaction col now st req = (Inr r, st')"
  shows "\<exists>uid its. req_user_id req = Some uid \<and> req_items req = Some its \<and>
           validate_items st its = None \<and>
           place_order col now st uid its = (Inr r, st')"
  using assms
  by (auto simp: createTransaction_def split: option.splits if_splits)

lemma place_order_success:
  assumes "place_order col now st uid its = (Inr r, st')"
  shows "\<exists>st2 tq tp.
           materialize col (fresh_id (issued st)) (create_order now st uid, 0, 0) its =
             Inr (st2, tq, tp) \<and>
           st' = update_order_total st2 (fresh_id (issued st)) tp"
  using assms
  by (auto simp: place_order_def Let_def split: sum.splits option.splits prod.splits)

lemma createTransaction_books:
  assumes "createTransaction col now st req = (Inr r, st')" and "req_items req = Some its"
  shows "books st' =
     map (\<lambda>b. b\<lparr>b_stock_quantity := b_stock_quantity b - purchased col its (b_id b)\<rparr>)
       (books st)"
proof -
  from createTransaction_success [OF assms(1)] assms(2) obtain uid
    where "place_order col now st uid its = (Inr r, st')" by auto
  from place_order_success [OF this] obtain st2 tq tp where
    m: "materialize col (fresh_id (issued st)) (create_order now st uid, 0, 0) its =
          Inr (st2, tq, tp)"
    and st': "st' = update_order_total st2 (fresh_id (issued st)) tp"
    by auto
  have "books st' = books st2" by (simp add: st' update_order_total_def)
  also have "\<dots> =
      map (\<lambda>b. b\<lparr>b_stock_quantity := b_stock_quantity b - purchased col its (b_id b)\<rparr>)
        (books (create_order now st uid))"
    using m by (rule materialize_books)
  finally show ?thesis by (simp add: create_order_def)
qed

lemma keeps_integers_truncating: "keeps_integers truncating"
  by (simp add: keeps_integers_def truncating_def)

lemma keeps_integers_refusing: "keeps_integers refusing"
  by (simp add: keeps_integers_def refusing_def whole_def)

lemma kept_whole:
  assumes "keeps_integers col" and "whole q"
  shows "col q = Some \<lfloor>q\<rfloor>" and "of_int (kept col q) = q"
proof -
  from assms(2) have "of_int \<lfloor>q\<rfloor> = q" unfolding whole_def .
  then have q: "q = of_int \<lfloor>q\<rfloor>" by (rule sym)
  from assms(1) have "col (of_int \<lfloor>q\<rfloor>) = Some \<lfloor>q\<rfloor>" by (simp add: keeps_integers_def)
  with q show "col q = Some \<lfloor>q\<rfloor>" by simp
  with q show "of_int (kept col q) = q" by (simp add: kept_def)
qed

lemma purchased_whole:
  assumes "keeps_integers col" and "list_all (\<lambda>it. whole (quantity it)) its"
  shows "real_of_int (purchased col its i) = asked its i"
  using assms(2)
proof (induction its)
  case Nil
  then show ?case by (simp add: purchased_def asked_def)
next
  case (Cons it its)
  then have "real_of_int (kept col (quantity it)) = quantity it"
    using kept_whole(2) [OF assms(1)] by simp
  with Cons show ?case by (simp add: purchased_def asked_def)
qed

lemmas shop_simps = shop_def dune_def scifi_def buy_def find_user_def find_book_active_def
  find_book_unique_def find_genre_unique_def find_genre_active_def find_order_def

lemmas str_simps = trim_def is_space_def falsy_str_def falsy_int_def falsy_real_def

lemmas tx_simps = createTransaction_def place_order_def Let_def process_item_def
  create_order_def create_order_item_def decrement_stock_def update_order_total_def
  item_view_of_def fresh_id_def user_summary_of_def

section \<open>createTransaction: totals of a successful order\<close>

text \<open>
  Claim C1, as amended. On a store that keeps its keys and references (\<open>store_ok\<close>)
  and stores an integer as it is, a request whose \<^verbatim>\<open>user_id\<close> names an existing user
  and whose non-empty item list has, in every item, a quantity that is an integer above
  0 and a book that exists, is not deleted and has at least that much stock, is
  answered with the 201. The returned \<^verbatim>\<open>total_quantity\<close> is the sum of the
  quantities, \<^verbatim>\<open>total_price\<close> the sum of price times quantity, the returned items are
  the requested ones in order, each with subtotal = price * quantity, and the subtotals
  add up to \<^verbatim>\<open>total_price\<close>.
\<close>

theorem createTransaction_totals:
  assumes keeps: "keeps_integers col"
    and ok: "store_ok st"
    and uid: "req_user_id req = Some uid" "uid \<noteq> []" "find_user st uid \<noteq> None"
    and its: "req_items req = Some its" "its \<noteq> []"
    and asked: "list_all (\<lambda>it. whole (quantity it) \<and> 0 < quantity it \<and> in_stock st it) its"
  shows "\<exists>r st'. createTransaction col now st req = (Inr r, st') \<and>
           total_quantity r = sum_list (map quantity its) \<and>
           total_price r =
             sum_list (map (\<lambda>it. book_price st (book_id it) * quantity it) its) \<and>
           map (\<lambda>v. bs_id (iv_book v)) (tx_items r) = map book_id its \<and>
           map (\<lambda>v. of_int (iv_quantity v)) (tx_items r) = map quantity its \<and>
           map (\<lambda>v. bs_price (iv_book v)) (tx_items r) =
             map (\<lambda>it. book_price st (book_id it)) its \<and>
           map iv_subtotal (tx_items r) =
             map (\<lambda>it. book_price st (book_id it) * quantity it) its \<and>
           list_all (\<lambda>v. iv_subtotal v = bs_price (iv_book v) * of_int (iv_quantity v))
             (tx_items r) \<and>
           sum_list (map iv_subtotal (tx_items r)) = total_price r"
proof -
  have items_ok: "list_all (item_ok st) its"
  proof -
    have "item_ok st it" if "it \<in> set its" for it
    proof -
      from that asked have q: "0 < quantity it" and "in_stock st it"
        by (auto simp: list_all_iff)
      then obtain b where b: "find_book_active st (book_id it) = Some b"
        and enough: "quantity it \<le> of_int (b_stock_quantity b)"
        by (auto simp: in_stock_def split: option.splits)
      from b have "b \<in> set (books st)" and "b_id b = book_id it"
        unfolding find_book_active_def by (auto dest: find_Some_mem find_Some_pred)
      with ok have "book_id it \<noteq> []" by (auto simp: store_ok_def list_all_iff)
      with q b enough show ?thesis by (simp add: item_ok_def)
    qed
    then show ?thesis by (simp add: list_all_iff)
  qed
  then have valid: "validate_items st its = None" by (simp add: validate_items_None)
  have all: "found st its = its" using items_ok by (rule found_all)
  have whole: "\<And>it. it \<in> set its \<Longrightarrow> whole (quantity it)"
    using asked by (simp add: list_all_iff)
  have accepts: "list_all (\<lambda>it. col (quantity it) \<noteq> None) (found st its)"
    using kept_whole(1) [OF keeps whole] by (simp add: all list_all_iff)
  have restored: "map (\<lambda>it. real_of_int (kept col (quantity it))) its = map quantity its"
    using kept_whole(2) [OF keeps whole] by (intro map_cong) auto
  have sub: "map (\<lambda>it. book_price st (book_id it) * of_int (kept col (quantity it))) its =
             map (\<lambda>it. book_price st (book_id it) * quantity it) its"
    using kept_whole(2) [OF keeps whole] by (intro map_cong) auto
  from place_order_result [OF ok uid(3) accepts, of now] obtain r st'
    where r: "place_order col now st uid its = (Inr r, st')"
      "total_quantity r = sum_list (map quantity its)"
      "total_price r = sum_list (map (\<lambda>it. book_price st (book_id it) * quantity it) its)"
      "map (\<lambda>v. bs_id (iv_book v)) (tx_items r) = map book_id its"
      "map iv_quantity (tx_items r) = map (\<lambda>it. kept col (quantity it)) its"
      "map (\<lambda>v. bs_price (iv_book v)) (tx_items r) = map (\<lambda>it. book_price st (book_id it)) its"
      "map iv_subtotal (tx_items r) =
         map (\<lambda>it. book_price st (book_id it) * of_int (kept col (quantity it))) its"
      "list_all (\<lambda>v. iv_subtotal v = bs_price (iv_book v) * of_int (iv_quantity v)) (tx_items r)"
    unfolding all by blast
  have "createTransaction col now st req = (Inr r, st')"
    using createTransaction_validated [OF uid its valid] r(1) by simp
  moreover have "map (\<lambda>v. of_int (iv_quantity v)) (tx_items r) = map quantity its"
  proof -
    have "map (\<lambda>v. real_of_int (iv_quantity v)) (tx_items r) =
          map real_of_int (map iv_quantity (tx_items r))" by simp
    also have "\<dots> = map (\<lambda>it. real_of_int (kept col (quantity it))) its"
      unfolding r(5) by simp
    finally show ?thesis by (simp add: restored)
  qed
  moreover have subs: "map iv_subtotal (tx_items r) =
      map (\<lambda>it. book_price st (book_id it) * quantity it) its"
    by (simp add: r(7) sub)
  moreover have "sum_list (map iv_subtotal (tx_items r)) = total_price r"
    by (simp add: subs r(3))
  ultimately show ?thesis using r(2,3,4,6,8) by blast
qed

theorem createTransaction_totals_witness:
  "\<exists>r st'. createTransaction truncating 7 shop (buy [2]) = (Inr r, st') \<and>
     total_quantity r = 2 \<and> total_price r = 200 \<and> map iv_subtotal (tx_items r) = [200] \<and>
     sum_list (map iv_subtotal (tx_items r)) = total_price r"
proof -
  have ok: "store_ok shop" by (simp add: store_ok_def shop_simps)
  have u: "req_user_id (buy [2]) = Some ''u1''" "''u1'' \<noteq> []" "find_user shop ''u1'' \<noteq> None"
    by (simp_all add: shop_simps)
  have i: "req_items (buy [2]) = Some [\<lparr>book_id = ''dune'', quantity = 2\<rparr>]"
    "[\<lparr>book_id = ''dune'', quantity = 2\<rparr>] \<noteq> []"
    "list_all (\<lambda>it. whole (quantity it) \<and> 0 < quantity it \<and> in_stock shop it)
       [\<lparr>book_id = ''dune'', quantity = 2\<rparr>]"
    by (simp_all add: shop_simps in_stock_def whole_def)
  show ?thesis
    using createTransaction_totals [OF keeps_integers_truncating ok u i, of 7]
    by (auto simp: book_price_def shop_simps)
qed

text \<open>
  The claim as it is written asks nothing of the sign of the quantities, of the user or
  of the quantities being integers. A request for -1 copies of Dune meets its
  conditions (the book exists, is not deleted and has stock 5 \<ge> -1) and is answered
  with the 400 of the quantity check; a request for 2 copies in the name of a user the
  store does not have is answered with the 404. A request for 1.5 copies passes every
  check: on a store that keeps the integer part the 201 has \<^verbatim>\<open>total_price\<close> 150 and
  one item with subtotal 100, and on a store that refuses the number the answer is the
  500, with the order row already created.
\<close>

theorem createTransaction_totals_counterexample:
  "req_items (buy [-1]) = Some [\<lparr>book_id = ''dune'', quantity = -1\<rparr>] \<and>
   in_stock shop \<lparr>book_id = ''dune'', quantity = -1\<rparr> \<and>
   createTransaction truncating 7 shop (buy [-1]) = (Inl QuantityNotPositive, shop) \<and>
   tx_status QuantityNotPositive = 400 \<and>
   in_stock shop \<lparr>book_id = ''dune'', quantity = 2\<rparr> \<and>
   createTransaction truncating 7 shop ((buy [2])\<lparr>req_user_id := Some ''u9''\<rparr>) =
     (Inl UserNotFound, shop) \<and>
   tx_status UserNotFound = 404 \<and>
   in_stock shop \<lparr>book_id = ''dune'', quantity = 3 / 2\<rparr> \<and>
   isl (fst (createTransaction truncating 7 shop (buy [3 / 2]))) = False \<and>
   total_price (projr (fst (createTransaction truncating 7 shop (buy [3 / 2])))) = 150 \<and>
   map iv_subtotal (tx_items (projr (fst (createTransaction truncating 7 shop (buy [3 / 2])))))
     = [100] \<and>
   fst (createTransaction refusing 7 shop (buy [3 / 2])) = Inl TxInternalError \<and>
   map o_totalPrice (orders (snd (createTransaction refusing 7 shop (buy [3 / 2])))) = [0]"
  by (simp add: tx_simps in_stock_def shop_simps truncating_def refusing_def whole_def)

section \<open>createTransaction: the stock after a successful order\<close>

text \<open>
  Claim C4, as amended. After a createTransaction answered with the 201, every book
  row is the row of before with its stock lowered by what the store kept of the
  quantities the request's items ask of that book (the sum over the items naming it).
  Where the quantities are integers, and the store keeps an integer as it is, that is
  exactly the quantity asked. A book no item names keeps its stock. The same request
  answered with a 201 a second time lowers the stock a second time: the two runs take
  twice as much.
\<close>

theorem createTransaction_stock:
  assumes first: "createTransaction col now st req = (Inr r, st')"
    and its: "req_items req = Some its"
  shows "books st' =
           map (\<lambda>b. b\<lparr>b_stock_quantity := b_stock_quantity b - purchased col its (b_id b)\<rparr>)
             (books st) \<and>
         stock_of st' i = map_option (\<lambda>s. s - purchased col its i) (stock_of st i) \<and>
         (keeps_integers col \<and> list_all (\<lambda>it. whole (quantity it)) its \<longrightarrow>
            real_of_int (purchased col its i) = asked its i) \<and>
         (i \<notin> book_id ` set its \<longrightarrow> stock_of st' i = stock_of st i) \<and>
         (\<forall>now' r' st''. createTransaction col now' st' req = (Inr r', st'') \<longrightarrow>
            stock_of st'' i = map_option (\<lambda>s. s - 2 * purchased col its i) (stock_of st i))"
proof -
  have b1: "books st' =
      map (\<lambda>b. b\<lparr>b_stock_quantity := b_stock_quantity b - purchased col its (b_id b)\<rparr>)
        (books st)"
    using first its by (rule createTransaction_books)
  then have s1: "stock_of st' i = map_option (\<lambda>s. s - purchased col its i) (stock_of st i)"
    by (rule stock_of_restocked)
  have exact: "real_of_int (purchased col its i) = asked its i"
    if "keeps_integers col \<and> list_all (\<lambda>it. whole (quantity it)) its"
    using that by (auto intro: purchased_whole)
  have unnamed: "purchased col its i = 0" if "i \<notin> book_id ` set its"
  proof -
    from that have "filter (\<lambda>it. book_id it = i) its = []"
      by (auto simp: filter_empty_conv)
    then show ?thesis by (simp add: purchased_def)
  qed
  have s3: "stock_of st' i = stock_of st i" if "i \<notin> book_id ` set its"
    using s1 unnamed [OF that] by (cases "stock_of st i") auto
  have s4: "stock_of st'' i = map_option (\<lambda>s. s - 2 * purchased col its i) (stock_of st i)"
    if second: "createTransaction col now' st' req = (Inr r', st'')" for now' r' st''
  proof -
    have "books st'' =
      map (\<lambda>b. b\<lparr>b_stock_quantity := b_stock_quantity b - purchased col its (b_id b)\<rparr>)
        (books st')"
      using second its by (rule createTransaction_books)
    then have "stock_of st'' i = map_option (\<lambda>s. s - purchased col its i) (stock_of st' i)"
      by (rule stock_of_restocked)
    with s1 show ?thesis by (cases "stock_of st i") auto
  qed
  from b1 s1 exact s3 s4 show ?thesis by blast
qed

theorem createTransaction_stock_witness:
  "stock_of (snd (createTransaction truncating 7 shop (buy [2]))) ''dune'' = Some 3 \<and>
   stock_of (snd (createTransaction truncating 8
                    (snd (createTransaction truncating 7 shop (buy [2]))) (buy [2]))) ''dune''
     = Some 1 \<and>
   asked [\<lparr>book_id = ''dune'', quantity = 2\<rparr>] ''dune'' = 2"
proof -
  obtain r st' where f: "createTransaction truncating 7 shop (buy [2]) = (Inr r, st')"
    by (simp add: tx_simps shop_simps truncating_def)
  obtain r' st'' where s: "createTransaction truncating 8 st' (buy [2]) = (Inr r', st'')"
    using f by (auto simp: tx_simps shop_simps truncating_def)
  have i: "req_items (buy [2]) = Some [\<lparr>book_id = ''dune'', quantity = 2\<rparr>]"
    by (simp add: buy_def)
  have w: "list_all (\<lambda>it. whole (quantity it)) [\<lparr>book_id = ''dune'', quantity = 2\<rparr>]"
    by (simp add: whole_def)
  show ?thesis
    using createTransaction_stock [OF f i, of "''dune''"] f s w keeps_integers_truncating
    by (auto simp: stock_of_def purchased_def asked_def kept_def truncating_def shop_simps)
qed

text \<open>
  The claim as it is written speaks of every successful request. A request for 1.5
  copies of Dune succeeds on a store that keeps the integer part of a number, and the
  stock goes from 5 to 4: down by 1, not by the 1.5 that were bought.
\<close>

theorem createTransaction_stock_counterexample:
  "isl (fst (createTransaction truncating 7 shop (buy [3 / 2]))) = False \<and>
   asked [\<lparr>book_id = ''dune'', quantity = 3 / 2\<rparr>] ''dune'' = 3 / 2 \<and>
   stock_of shop ''dune'' = Some 5 \<and>
   stock_of (snd (createTransaction truncating 7 shop (buy [3 / 2]))) ''dune'' = Some 4"
  by (simp add: tx_simps shop_simps stock_of_def asked_def truncating_def)

section \<open>createTransaction: stock after an order naming a book twice\<close>

text \<open>
  What the validation pass does guarantee: when no book id occurs twice in the items
  and the quantities are integers (book ids being a primary key), a 201 leaves every
  stock at or above 0 if it was so before.
\<close>

lemma purchased_distinct:
  assumes "distinct (map book_id its)"
  shows "purchased col its i =
           (case find (\<lambda>it. book_id it = i) its of
              None \<Rightarrow> 0 | Some it \<Rightarrow> kept col (quantity it))"
  by (simp add: purchased_def filter_distinct_key [OF assms] split: option.splits)

lemma createTransaction_stock_nonneg_distinct_items:
  assumes ok: "createTransaction col now st req = (Inr r, st')"
    and its: "req_items req = Some its"
    and keeps: "keeps_integers col"
    and ints: "list_all (\<lambda>it. whole (quantity it)) its"
    and once: "distinct (map book_id its)"
    and pk: "distinct (map b_id (books st))"
    and nonneg: "list_all (\<lambda>b. 0 \<le> b_stock_quantity b) (books st)"
  shows "list_all (\<lambda>b. 0 \<le> b_stock_quantity b) (books st')"
proof -
  from createTransaction_success [OF ok] its have valid: "list_all (item_ok st) its"
    by (auto simp: validate_items_None)
  have enough: "purchased col its (b_id b) \<le> b_stock_quantity b" if b: "b \<in> set (books st)" for b
  proof (cases "find (\<lambda>it. book_id it = b_id b) its")
    case None
    with b nonneg show ?thesis
      by (simp add: purchased_distinct [OF once] list_all_iff)
  next
    case (Some it)
    then have mem: "it \<in> set its" and named: "book_id it = b_id b"
      by (auto dest: find_Some_mem find_Some_pred)
    with valid have "item_ok st it" by (simp add: list_all_iff)
    then obtain b' where b': "find_book_active st (book_id it) = Some b'"
      and q: "quantity it \<le> real_of_int (b_stock_quantity b')"
      by (auto simp: item_ok_def split: option.splits)
    from b' have "b' \<in> set (books st)" and "b_id b' = book_id it"
      unfolding find_book_active_def by (auto dest: find_Some_mem find_Some_pred)
    with pk b named have same: "b' = b" by (auto intro: distinct_key_eq [of b_id])
    from mem ints have "whole (quantity it)" by (simp add: list_all_iff)
    from kept_whole(2) [OF keeps this] q same
    have "real_of_int (kept col (quantity it)) \<le> real_of_int (b_stock_quantity b)" by simp
    then have "kept col (quantity it) \<le> b_stock_quantity b" by (simp only: of_int_le_iff)
    with Some show ?thesis by (simp add: purchased_distinct [OF once])
  qed
  have "books st' =
      map (\<lambda>b. b\<lparr>b_stock_quantity := b_stock_quantity b - purchased col its (b_id b)\<rparr>) (books st)"
    using ok its by (rule createTransaction_books)
  with enough show ?thesis by (simp add: list_all_iff)
qed

text \<open>
  Claim C3 at a failing input. Dune has 5 in stock; a request with two items of 3
  copies each passes the validation pass (each item is compared with the stock 5 on its
  own), is answered with the 201, and leaves Dune with stock -1. Of the store this
  asks only that it stores the number 3 as 3.
\<close>

theorem createTransaction_duplicate_items_negative_stock:
  assumes "col 3 = Some 3"
  shows "validate_items shop
     [\<lparr>book_id = ''dune'', quantity = 3\<rparr>, \<lparr>book_id = ''dune'', quantity = 3\<rparr>] = None \<and>
   isl (fst (createTransaction col 7 shop (buy [3, 3]))) = False \<and>
   stock_of shop ''dune'' = Some 5 \<and>
   stock_of (snd (createTransaction col 7 shop (buy [3, 3]))) ''dune'' = Some (- 1)"
  using assms by (simp add: tx_simps shop_simps stock_of_def)

theorem createTransaction_duplicate_items_negative_stock_witness:
  "isl (fst (createTransaction truncating 7 shop (buy [3, 3]))) = False \<and>
   stock_of (snd (createTransaction truncating 7 shop (buy [3, 3]))) ''dune'' = Some (- 1) \<and>
   isl (fst (createTransaction refusing 7 shop (buy [3, 3]))) = False \<and>
   stock_of (snd (createTransaction refusing 7 shop (buy [3, 3]))) ''dune'' = Some (- 1)"
proof -
  have t: "truncating 3 = Some 3" by (simp add: truncating_def)
  have r: "refusing 3 = Some 3" by (simp add: refusing_def whole_def)
  show ?thesis
    using createTransaction_duplicate_items_negative_stock [of truncating, OF t]
      createTransaction_duplicate_items_negative_stock [of refusing, OF r]
    by simp
qed

text \<open>
  createBook is a second way to a negative stock: it checks that the field is present
  and stores the number as it is, where updateBook refuses a negative one.
\<close>

lemma createBook_negative_stock_accepted:
  "map b_stock_quantity (books (snd (createBook shop returned_stock))) = [5, - 5]"
  by (simp add: createBook_def Let_def missing_field_def returned_stock_def str_simps
        find_book_by_title_def shop_simps)

section \<open>createTransaction: requests asking for more than the stock\<close>






section \<open>createTransaction: the re-fetch of the materialization loop\<close>

text \<open>
  Claim C10. The second loop of createTransaction re-fetches every book by id alone.
  Over a whole item list (the store accepting the quantities it is to keep) the loop
  does not throw, and its effect is that of the items whose book id finds a row: they
  alone add to the two totals, each of them gets an order item, and every book row,
  tombstoned or not, has its stock lowered by what was bought of it. An item whose
  re-fetch finds nothing is passed over: it adds 0 to both totals, gets no order item
  and changes no stock. The handler from the order row on then answers the 201 with
  these totals and these items, which is what createTransaction does once its
  validation pass has let the request through. So a book that is tombstoned by the
  time the loop runs is still charged and decremented, although the validation pass
  would no longer find it.
\<close>

theorem createTransaction_loop_refetch:
  assumes accepts: "list_all (\<lambda>it. col (quantity it) \<noteq> None) (found st its)"
  shows "(\<exists>st'. materialize col oid (st, tq, tp) its =
                  Inr (st', tq + sum_list (map quantity (found st its)),
                       tp + sum_list (map (\<lambda>it. book_price st (book_id it) * quantity it)
                                        (found st its))) \<and>
                books st' =
                  map (\<lambda>b. b\<lparr>b_stock_quantity :=
                               b_stock_quantity b - purchased col its (b_id b)\<rparr>) (books st) \<and>
                (\<exists>news. order_items st' = order_items st @ news \<and>
                        map oi_order_id news = map (\<lambda>it. oid) (found st its) \<and>
                        map oi_book_id news = map book_id (found st its) \<and>
                        map oi_quantity news =
                          map (\<lambda>it. kept col (quantity it)) (found st its))) \<and>
         (store_ok st \<and> find_user st uid \<noteq> None \<longrightarrow>
            (\<exists>r st'. place_order col now st uid its = (Inr r, st') \<and>
                total_quantity r = sum_list (map quantity (found st its)) \<and>
                total_price r =
                  sum_list (map (\<lambda>it. book_price st (book_id it) * quantity it) (found st its)) \<and>
                map (\<lambda>v. bs_id (iv_book v)) (tx_items r) = map book_id (found st its) \<and>
                map iv_quantity (tx_items r) =
                  map (\<lambda>it. kept col (quantity it)) (found st its) \<and>
                books st' =
                  map (\<lambda>b. b\<lparr>b_stock_quantity :=
                               b_stock_quantity b - purchased col its (b_id b)\<rparr>) (books st) \<and>
                (\<exists>news. order_items st' = order_items st @ news \<and>
                        map oi_book_id news = map book_id (found st its) \<and>
                        map oi_quantity news =
                          map (\<lambda>it. kept col (quantity it)) (found st its)))) \<and>
         (req_user_id req = Some uid \<and> uid \<noteq> [] \<and> find_user st uid \<noteq> None \<and>
          req_items req = Some its \<and> its \<noteq> [] \<and> validate_items st its = None \<longrightarrow>
            createTransaction col now st req = place_order col now st uid its)"
proof (intro conjI impI)
  from materialize_accepts [OF accepts] obtain st' tq' tp'
    where m: "materialize col oid (st, tq, tp) its = Inr (st', tq', tp')" by blast
  from materialize_totals [OF m] materialize_books [OF m] materialize_order_items [OF m] m
  show "\<exists>st'. materialize col oid (st, tq, tp) its =
                  Inr (st', tq + sum_list (map quantity (found st its)),
                       tp + sum_list (map (\<lambda>it. book_price st (book_id it) * quantity it)
                                        (found st its))) \<and>
                books st' =
                  map (\<lambda>b. b\<lparr>b_stock_quantity :=
                               b_stock_quantity b - purchased col its (b_id b)\<rparr>) (books st) \<and>
                (\<exists>news. order_items st' = order_items st @ news \<and>
                        map oi_order_id news = map (\<lambda>it. oid) (found st its) \<and>
                        map oi_book_id news = map book_id (found st its) \<and>
                        map oi_quantity news =
                          map (\<lambda>it. kept col (quantity it)) (found st its))"
    by auto
next
  assume a: "store_ok st \<and> find_user st uid \<noteq> None"
  then have ok: "store_ok st" and user: "find_user st uid \<noteq> None" by simp_all
  from place_order_result [OF ok user accepts, of now]
  show "\<exists>r st'. place_order col now st uid its = (Inr r, st') \<and>
                total_quantity r = sum_list (map quantity (found st its)) \<and>
                total_price r =
                  sum_list (map (\<lambda>it. book_price st (book_id it) * quantity it) (found st its)) \<and>
                map (\<lambda>v. bs_id (iv_book v)) (tx_items r) = map book_id (found st its) \<and>
                map iv_quantity (tx_items r) =
                  map (\<lambda>it. kept col (quantity it)) (found st its) \<and>
                books st' =
                  map (\<lambda>b. b\<lparr>b_stock_quantity :=
                               b_stock_quantity b - purchased col its (b_id b)\<rparr>) (books st) \<and>
                (\<exists>news. order_items st' = order_items st @ news \<and>
                        map oi_book_id news = map book_id (found st its) \<and>
                        map oi_quantity news =
                          map (\<lambda>it. kept col (quantity it)) (found st its))"
    by blast
next
  assume "req_user_id req = Some uid \<and> uid \<noteq> [] \<and> find_user st uid \<noteq> None \<and>
          req_items req = Some its \<and> its \<noteq> [] \<and> validate_items st its = None"
  then show "createTransaction col now st req = place_order col now st uid its"
    by (intro createTransaction_validated) simp_all
qed

theorem createTransaction_loop_refetch_witness:
  "find_book_unique shop_dune_deleted ''ghost'' = None \<and>
   find_book_active shop_dune_deleted ''dune'' = None \<and>
   found shop_dune_deleted ghost_and_dune = [\<lparr>book_id = ''dune'', quantity = 2\<rparr>] \<and>
   (\<exists>r st'. place_order truncating 7 shop_dune_deleted ''u1'' ghost_and_dune = (Inr r, st') \<and>
      total_quantity r = 2 \<and> total_price r = 200 \<and>
      map (\<lambda>v. bs_id (iv_book v)) (tx_items r) = [''dune''] \<and>
      map b_stock_quantity (books st') = [3] \<and>
      map oi_book_id (order_items st') = [''dune''])"
proof -
  have acc: "list_all (\<lambda>it. truncating (quantity it) \<noteq> None)
               (found shop_dune_deleted ghost_and_dune)"
    by (simp add: found_def ghost_and_dune_def truncating_def)
  have pre: "store_ok shop_dune_deleted \<and> find_user shop_dune_deleted ''u1'' \<noteq> None"
    by (simp add: store_ok_def shop_dune_deleted_def shop_simps)
  have g: "find_book_unique shop_dune_deleted ''ghost'' = None"
    and d: "find_book_active shop_dune_deleted ''dune'' = None"
    and f: "found shop_dune_deleted ghost_and_dune = [\<lparr>book_id = ''dune'', quantity = 2\<rparr>]"
    by (simp_all add: found_def ghost_and_dune_def shop_dune_deleted_def shop_simps)
  have p: "purchased truncating ghost_and_dune ''dune'' = 2"
    by (simp add: purchased_def kept_def truncating_def ghost_and_dune_def)
  from createTransaction_loop_refetch [OF acc, THEN conjunct2, THEN conjunct1, THEN mp, OF pre, of 7]
  obtain r st' where r: "place_order truncating 7 shop_dune_deleted ''u1'' ghost_and_dune = (Inr r, st')"
    "total_quantity r = sum_list (map quantity (found shop_dune_deleted ghost_and_dune))"
    "total_price r = sum_list (map (\<lambda>it. book_price shop_dune_deleted (book_id it) * quantity it)
                         (found shop_dune_deleted ghost_and_dune))"
    "map (\<lambda>v. bs_id (iv_book v)) (tx_items r) = map book_id (found shop_dune_deleted ghost_and_dune)"
    "books st' = map (\<lambda>b. b\<lparr>b_stock_quantity :=
                      b_stock_quantity b - purchased truncating ghost_and_dune (b_id b)\<rparr>)
                   (books shop_dune_deleted)"
    and "\<exists>news. order_items st' = order_items shop_dune_deleted @ news \<and>
           map oi_book_id news = map book_id (found shop_dune_deleted ghost_and_dune) \<and>
           map oi_quantity news =
             map (\<lambda>it. kept truncating (quantity it)) (found shop_dune_deleted ghost_and_dune)"
    by blast
  then obtain news where n: "order_items st' = order_items shop_dune_deleted @ news"
    "map oi_book_id news = map book_id (found shop_dune_deleted ghost_and_dune)" by blast
  have "total_quantity r = 2" by (simp add: r(2) f)
  moreover have "total_price r = 200"
    unfolding r(3) f by (simp add: book_price_def shop_dune_deleted_def shop_simps)
  moreover have "map (\<lambda>v. bs_id (iv_book v)) (tx_items r) = [''dune'']" by (simp add: r(4) f)
  moreover have "map b_stock_quantity (books st') = [3]"
    unfolding r(5) by (simp add: p shop_dune_deleted_def shop_simps)
  moreover have "map oi_book_id (order_items st') = [''dune'']"
  proof -
    have "map oi_book_id news = [''dune'']" unfolding n(2) f by simp
    then show ?thesis by (simp add: n(1) shop_dune_deleted_def shop_simps)
  qed
  ultimately have "\<exists>r st'. place_order truncating 7 shop_dune_deleted ''u1'' ghost_and_dune =
        (Inr r, st') \<and>
      total_quantity r = 2 \<and> total_price r = 200 \<and>
      map (\<lambda>v. bs_id (iv_book v)) (tx_items r) = [''dune''] \<and>
      map b_stock_quantity (books st') = [3] \<and>
      map oi_book_id (order_items st') = [''dune'']"
    using r(1) by (intro exI [of _ r] exI [of _ st']) simp
  with g d f show ?thesis by simp
qed

section \<open>updateBook: a title of blanks\<close>

text \<open>
  Claim C5 at a failing input. The title check of updateBook asks the trimmed title to
  be truthy and equal to the empty string at once, which no value is. An update of Dune
  whose title is three blanks is therefore answered with the 200, and the stored title
  becomes the empty string.
\<close>

theorem updateBook_blank_title_accepted:
  "(\<forall>t. \<not> title_check_fails t) \<and>
   trim ''   '' = [] \<and>
   find_book_active shop ''dune'' = Some dune \<and>
   updateBook shop ''dune'' blank_title =
     (Inr (dune\<lparr>b_title := []\<rparr>, scifi), shop\<lparr>books := [dune\<lparr>b_title := []\<rparr>]\<rparr>)"
proof -
  have "\<not> title_check_fails t" for t
    by (cases t) (auto simp: title_check_fails_def falsy_str_def)
  moreover have "trim ''   '' = []" by (simp add: str_simps)
  moreover have "find_book_active shop ''dune'' = Some dune" by (simp add: shop_simps)
  moreover have "updateBook shop ''dune'' blank_title =
     (Inr (dune\<lparr>b_title := []\<rparr>, scifi), shop\<lparr>books := [dune\<lparr>b_title := []\<rparr>]\<rparr>)"
    by (simp add: updateBook_def blank_title_def title_check_fails_def apply_update_def
          str_simps shop_simps Let_def)
  ultimately show ?thesis by blast
qed

section \<open>createBook: the required fields\<close>

text \<open>
  Claim C6 at a failing input. A body with all six required fields present, at price 0,
  fails the first check of createBook (\<^verbatim>\<open>!price\<close> is true of 0) and is answered with
  the 400 for missing fields.
\<close>

theorem createBook_zero_price_rejected:
  "f_title free_book \<noteq> None \<and> f_writer free_book \<noteq> None \<and> f_publisher free_book \<noteq> None \<and>
   f_price free_book = Some 0 \<and> f_stock_quantity free_book \<noteq> None \<and>
   f_genre_id free_book \<noteq> None \<and>
   missing_field free_book \<and>
   createBook shop free_book = (Inl FieldsRequired, shop) \<and>
   book_status FieldsRequired = 400"
  by (simp add: createBook_def missing_field_def free_book_def str_simps)

section \<open>deleteGenre\<close>

lemma find_conj_key:
  "find (\<lambda>x. k x = i \<and> Q x) xs = Some x \<Longrightarrow> k x = i \<and> Q x"
  by (drule find_Some_pred) simp

lemma find_map_None: "(\<And>x. \<not> P (f x)) \<Longrightarrow> find P (map f xs) = None"
  by (induction xs) auto

text \<open>
  Claim C7. Let \<open>gid\<close> name a non-deleted genre (genre ids being a primary key). If
  at least one non-deleted book references it, deleteGenre answers the 400 whose
  payload carries the genre's name, the number of those books and, for exactly the
  non-deleted books with that \<^verbatim>\<open>genre_id\<close>, their id, title and writer; the store is
  unchanged, so the genre is still not deleted. If no non-deleted book references it,
  deleteGenre answers with id, name and the new \<^verbatim>\<open>deleted_at\<close>, which is the clock
  reading; the stored genre carries that tombstone and is no longer found among the
  non-deleted ones.
\<close>

theorem deleteGenre_in_use_or_tombstoned:
  assumes g: "find_genre_active st gid = Some g"
    and pk: "distinct (map g_id (genres st))"
  shows "(active_books_of st g \<noteq> [] \<longrightarrow>
            deleteGenre now st gid =
              (Inl (GenreInUse (g_name g)
                      (length (filter (\<lambda>b. b_genre_id b = gid \<and> b_deleted_at b = None) (books st)))
                      (map (\<lambda>b. (b_id b, b_title b, b_writer b))
                         (filter (\<lambda>b. b_genre_id b = gid \<and> b_deleted_at b = None) (books st)))), st) \<and>
            genre_status (projl (fst (deleteGenre now st gid))) = 400 \<and>
            find_genre_active (snd (deleteGenre now st gid)) gid = Some g) \<and>
         (active_books_of st g = [] \<longrightarrow>
            deleteGenre now st gid =
              (Inr (gid, g_name g, Some now),
               st\<lparr>genres := map (\<lambda>x. if g_id x = gid then x\<lparr>g_deleted_at := Some now\<rparr> else x)
                                (genres st)\<rparr>) \<and>
            find_genre_unique (snd (deleteGenre now st gid)) gid =
              Some (g\<lparr>g_deleted_at := Some now\<rparr>) \<and>
            find_genre_active (snd (deleteGenre now st gid)) gid = None)"
proof -
  from g have gid: "g_id g = gid" and live: "g_deleted_at g = None"
    unfolding find_genre_active_def by (auto dest: find_conj_key)
  have uniq: "find_genre_unique st gid = Some g"
    using pk g unfolding find_genre_active_def find_genre_unique_def
    by (rule find_distinct_key)
  let ?f = "\<lambda>x. if g_id x = gid then x\<lparr>g_deleted_at := Some now\<rparr> else x"
  let ?st' = "st\<lparr>genres := map ?f (genres st)\<rparr>"
  have uniq': "find_genre_unique ?st' gid = Some (g\<lparr>g_deleted_at := Some now\<rparr>)"
  proof -
    have "find (\<lambda>x. g_id x = gid) (map ?f (genres st)) =
          map_option ?f (find (\<lambda>x. g_id x = gid) (genres st))"
      by (rule find_map_same_key) simp
    with uniq gid show ?thesis by (simp add: find_genre_unique_def)
  qed
  have none': "find_genre_active ?st' gid = None"
  proof -
    have "find (\<lambda>x. g_id x = gid \<and> g_deleted_at x = None) (map ?f (genres st)) = None"
      by (rule find_map_None) simp
    then show ?thesis by (simp add: find_genre_active_def)
  qed
  have books: "active_books_of st g =
      filter (\<lambda>b. b_genre_id b = gid \<and> b_deleted_at b = None) (books st)"
    by (simp add: active_books_of_def gid)
  show ?thesis
  proof (intro conjI impI)
    assume used: "active_books_of st g \<noteq> []"
    then show in_use: "deleteGenre now st gid =
              (Inl (GenreInUse (g_name g)
                      (length (filter (\<lambda>b. b_genre_id b = gid \<and> b_deleted_at b = None) (books st)))
                      (map (\<lambda>b. (b_id b, b_title b, b_writer b))
                         (filter (\<lambda>b. b_genre_id b = gid \<and> b_deleted_at b = None) (books st)))), st)"
      using g by (simp add: deleteGenre_def Let_def books [symmetric])
    show "genre_status (projl (fst (deleteGenre now st gid))) = 400"
      by (simp add: in_use)
    show "find_genre_active (snd (deleteGenre now st gid)) gid = Some g"
      by (simp add: in_use g)
  next
    assume free: "active_books_of st g = []"
    then show del: "deleteGenre now st gid = (Inr (gid, g_name g, Some now), ?st')"
      using g uniq' gid by (simp add: deleteGenre_def Let_def)
    show "find_genre_unique (snd (deleteGenre now st gid)) gid =
            Some (g\<lparr>g_deleted_at := Some now\<rparr>)"
      by (simp add: del uniq')
    show "find_genre_active (snd (deleteGenre now st gid)) gid = None"
      by (simp add: del none')
  qed
qed

theorem deleteGenre_in_use_or_tombstoned_witness:
  "deleteGenre 9 shop ''g1'' = (Inl (GenreInUse ''Sci-Fi'' 1 [(''dune'', ''Dune'', ''Herbert'')]), shop) \<and>
   deleteGenre 9 shop_dune_deleted ''g1'' =
     (Inr (''g1'', ''Sci-Fi'', Some 9),
      shop_dune_deleted\<lparr>genres := [scifi\<lparr>g_deleted_at := Some 9\<rparr>]\<rparr>)"
proof -
  have g1: "find_genre_active shop ''g1'' = Some scifi"
    and g2: "find_genre_active shop_dune_deleted ''g1'' = Some scifi"
    by (simp_all add: shop_dune_deleted_def shop_simps)
  have d1: "distinct (map g_id (genres shop))"
    and d2: "distinct (map g_id (genres shop_dune_deleted))"
    by (simp_all add: shop_dune_deleted_def shop_simps)
  have a1: "active_books_of shop scifi \<noteq> []"
    and a2: "active_books_of shop_dune_deleted scifi = []"
    by (simp_all add: active_books_of_def shop_dune_deleted_def shop_simps)
  show ?thesis
    using deleteGenre_in_use_or_tombstoned [OF g1 d1, of 9]
      deleteGenre_in_use_or_tombstoned [OF g2 d2, of 9] a1 a2
    by (simp add: shop_dune_deleted_def shop_simps)
qed

section \<open>createGenre\<close>

lemma find_exists: "x \<in> set xs \<Longrightarrow> P x \<Longrightarrow> find P xs \<noteq> None"
  by (induction xs) auto

lemma dropWhile_snoc_keep: "\<not> P c \<Longrightarrow> dropWhile P (xs @ [c]) = dropWhile P xs @ [c]"
  by (induction xs) auto

text \<open>
  What \<open>trim\<close> does: it takes white space off both ends and nothing else, it leaves
  no white space at either end, and white space around a string does not change the
  result.
\<close>

lemma trim_decomposition:
  "\<exists>l r. s = l @ trim s @ r \<and> list_all is_space l \<and> list_all is_space r"
proof -
  let ?d = "dropWhile is_space s"
  have "rev (takeWhile is_space (rev ?d) @ dropWhile is_space (rev ?d)) = ?d"
    by (simp only: takeWhile_dropWhile_id rev_rev_ident)
  then have "rev (dropWhile is_space (rev ?d)) @ rev (takeWhile is_space (rev ?d)) = ?d"
    by (simp only: rev_append)
  then have d: "?d = trim s @ rev (takeWhile is_space (rev ?d))"
    by (simp only: trim_def)
  have "s = takeWhile is_space s @ ?d" by simp
  with d have "s = takeWhile is_space s @ trim s @ rev (takeWhile is_space (rev ?d))" by simp
  moreover have "list_all is_space (takeWhile is_space s)"
    by (auto simp: list_all_iff dest: set_takeWhileD)
  moreover have "list_all is_space (rev (takeWhile is_space (rev ?d)))"
    by (auto simp: list_all_iff dest: set_takeWhileD)
  ultimately show ?thesis by blast
qed

lemma trim_ends:
  assumes "trim s \<noteq> []"
  shows "\<not> is_space (hd (trim s)) \<and> \<not> is_space (last (trim s))"
proof -
  let ?e = "dropWhile is_space (rev (dropWhile is_space s))"
  from assms have e: "?e \<noteq> []" by (simp add: trim_def)
  then have "\<not> is_space (hd ?e)" by (rule hd_dropWhile)
  then have last: "\<not> is_space (last (trim s))"
    using e by (simp add: trim_def last_rev)
  have "set ?e \<subseteq> set (rev (dropWhile is_space s))" by (auto dest: set_dropWhileD)
  then have sub: "set ?e \<subseteq> set (dropWhile is_space s)" by simp
  \<comment> \<open>the first character of the result is the first one after the leading white space\<close>
  obtain c cs where d: "dropWhile is_space s = c # cs"
    using e by (cases "dropWhile is_space s") auto
  then have c: "\<not> is_space c" by (metis hd_dropWhile list.sel(1) list.distinct(1))
  have "rev (c # cs) = rev cs @ [c]" by simp
  moreover have "dropWhile is_space (rev cs @ [c]) = dropWhile is_space (rev cs) @ [c]"
    using c by (rule dropWhile_snoc_keep)
  ultimately have "trim s = c # rev (dropWhile is_space (rev cs))"
    by (simp add: trim_def d)
  with c last show ?thesis by simp
qed

lemma trim_surrounded:
  assumes l: "list_all is_space l" and r: "list_all is_space r"
  shows "trim (l @ s @ r) = trim s"
proof -
  have front: "dropWhile is_space (l @ s @ r) = dropWhile is_space (s @ r)"
    using l by (intro dropWhile_append2) (auto simp: list_all_iff)
  show ?thesis
  proof (cases "\<exists>c\<in>set s. \<not> is_space c")
    case True
    then obtain c where "c \<in> set s" "\<not> is_space c" by blast
    then have "dropWhile is_space (s @ r) = dropWhile is_space s @ r"
      by (simp add: dropWhile_append1)
    moreover have "dropWhile is_space (rev r @ rev (dropWhile is_space s)) =
                   dropWhile is_space (rev (dropWhile is_space s))"
      using r by (intro dropWhile_append2) (auto simp: list_all_iff)
    ultimately show ?thesis by (simp add: trim_def front)
  next
    case False
    then have s: "\<forall>c\<in>set s. is_space c" by blast
    then have a: "dropWhile is_space (s @ r) = []"
      using r by (simp add: list_all_iff)
    have b: "dropWhile is_space s = []"
      using s by simp
    show ?thesis unfolding trim_def front a b by simp
  qed
qed

lemma trim_blank: "list_all is_space s \<Longrightarrow> trim s = []"
proof -
  assume "list_all is_space s"
  then have d: "dropWhile is_space s = []" by (simp add: list_all_iff)
  show ?thesis unfolding trim_def d by simp
qed

lemma createGenre_conflict:
  assumes "n \<noteq> []" "trim n \<noteq> []" "x \<in> set (genres st)" "g_name x = trim n" "g_deleted_at x = None"
  shows "createGenre st (Some n) = (Inl GenreExists, st)"
proof -
  have "find_genre_by_name st (trim n) \<noteq> None"
    unfolding find_genre_by_name_def using assms(3-5) by (intro find_exists) auto
  then show ?thesis using assms(1,2) by (auto simp: createGenre_def)
qed

lemma trim_nonempty: "trim n \<noteq> [] \<Longrightarrow> n \<noteq> []"
  by (auto simp: trim_def)

lemma createGenre_leaves_name:
  assumes "trim n \<noteq> []"
  shows "\<exists>x\<in>set (genres (snd (createGenre st (Some n)))). g_name x = trim n \<and> g_deleted_at x = None"
proof (cases "find_genre_by_name st (trim n)")
  case None
  then show ?thesis using assms trim_nonempty [OF assms]
    by (simp add: createGenre_def Let_def)
next
  case (Some x)
  then have "x \<in> set (genres st)" "g_name x = trim n \<and> g_deleted_at x = None"
    unfolding find_genre_by_name_def by (auto dest: find_Some_mem find_Some_pred)
  then show ?thesis using Some assms trim_nonempty [OF assms]
    by (auto simp: createGenre_def)
qed

text \<open>
  Claim C9. createGenre answers the 400 when the name is absent, trims to the empty
  string or is white space throughout. When a non-deleted genre is stored under the
  name the request's name trims to, it answers the 409 and the store is unchanged, so
  no genre is added. In particular, after a createGenre for a name \<open>n\<close> that does
  not trim to the empty string, a createGenre for any \<open>m\<close> with the same trimmed
  name, and so for \<open>n\<close> with any white space put around it, is answered with the 409
  and changes nothing.
\<close>

theorem createGenre_trimmed_names:
  "createGenre st None = (Inl GenreNameRequired, st) \<and>
   (trim n = [] \<longrightarrow> createGenre st (Some n) = (Inl GenreNameRequired, st)) \<and>
   (list_all is_space n \<longrightarrow> createGenre st (Some n) = (Inl GenreNameRequired, st)) \<and>
   genre_status GenreNameRequired = 400 \<and>
   (trim n \<noteq> [] \<and> x \<in> set (genres st) \<and> g_deleted_at x = None \<and> g_name x = trim n \<longrightarrow>
      createGenre st (Some n) = (Inl GenreExists, st)) \<and>
   genre_status GenreExists = 409 \<and>
   (trim n \<noteq> [] \<and> trim m = trim n \<longrightarrow>
      createGenre (snd (createGenre st (Some n))) (Some m) =
        (Inl GenreExists, snd (createGenre st (Some n)))) \<and>
   (trim n \<noteq> [] \<and> list_all is_space l \<and> list_all is_space r \<longrightarrow>
      createGenre (snd (createGenre st (Some n))) (Some (l @ n @ r)) =
        (Inl GenreExists, snd (createGenre st (Some n))))"
proof (intro conjI impI)
  show "createGenre st None = (Inl GenreNameRequired, st)"
    by (simp add: createGenre_def)
next
  assume "trim n = []"
  then show "createGenre st (Some n) = (Inl GenreNameRequired, st)"
    by (simp add: createGenre_def)
next
  assume "list_all is_space n"
  then have "trim n = []" by (rule trim_blank)
  then show "createGenre st (Some n) = (Inl GenreNameRequired, st)"
    by (simp add: createGenre_def)
next
  assume a: "trim n \<noteq> [] \<and> x \<in> set (genres st) \<and> g_deleted_at x = None \<and>
             g_name x = trim n"
  then have "n \<noteq> []" by (auto dest: trim_nonempty)
  with a show "createGenre st (Some n) = (Inl GenreExists, st)"
    by (auto intro: createGenre_conflict)
next
  assume a: "trim n \<noteq> [] \<and> trim m = trim n"
  then obtain y where y: "y \<in> set (genres (snd (createGenre st (Some n))))"
    "g_name y = trim n" "g_deleted_at y = None"
    using createGenre_leaves_name [of n st] by auto
  from a have tm: "trim m \<noteq> []" by simp
  then have "m \<noteq> []" by (rule trim_nonempty)
  with tm show "createGenre (snd (createGenre st (Some n))) (Some m) =
        (Inl GenreExists, snd (createGenre st (Some n)))"
    using y a by (intro createGenre_conflict) auto
next
  assume a: "trim n \<noteq> [] \<and> list_all is_space l \<and> list_all is_space r"
  then obtain y where y: "y \<in> set (genres (snd (createGenre st (Some n))))"
    "g_name y = trim n" "g_deleted_at y = None"
    using createGenre_leaves_name [of n st] by auto
  from a have same: "trim (l @ n @ r) = trim n" by (simp add: trim_surrounded)
  with a have tm: "trim (l @ n @ r) \<noteq> []" by simp
  then have "l @ n @ r \<noteq> []" by (rule trim_nonempty)
  with tm show "createGenre (snd (createGenre st (Some n))) (Some (l @ n @ r)) =
        (Inl GenreExists, snd (createGenre st (Some n)))"
    using y same by (intro createGenre_conflict) auto
qed simp_all

theorem createGenre_trimmed_names_witness:
  "createGenre shop (Some ''   '') = (Inl GenreNameRequired, shop) \<and>
   createGenre shop (Some [CHR 0xA0]) = (Inl GenreNameRequired, shop) \<and>
   createGenre shop None = (Inl GenreNameRequired, shop) \<and>
   createGenre shop (Some '' Sci-Fi '') = (Inl GenreExists, shop) \<and>
   fst (createGenre shop (Some ''Fiction'')) =
     Inr \<lparr>g_id = fresh_id 0, g_name = ''Fiction'', g_deleted_at = None\<rparr> \<and>
   fst (createGenre (snd (createGenre shop (Some ''Fiction''))) (Some '' Fiction '')) =
     Inl GenreExists \<and>
   fst (createGenre (snd (createGenre shop (Some ''Fiction'')))
          (Some ([CHR 0xA0] @ ''Fiction'' @ [CHR 0x09, CHR 0x0A]))) = Inl GenreExists"
proof -
  have t1: "trim ''   '' = []" and t2: "trim '' Sci-Fi '' = ''Sci-Fi''"
    and t3: "trim ''Fiction'' = ''Fiction''" and t4: "trim '' Fiction '' = ''Fiction''"
    by (simp_all add: str_simps)
  have w: "list_all is_space [CHR 0xA0]" "list_all is_space [CHR 0x09, CHR 0x0A]"
    by (simp_all add: is_space_def)
  have s: "scifi \<in> set (genres shop)" "g_deleted_at scifi = None" "g_name scifi = ''Sci-Fi''"
    by (simp_all add: shop_simps)
  have f: "fst (createGenre shop (Some ''Fiction'')) =
     Inr \<lparr>g_id = fresh_id 0, g_name = ''Fiction'', g_deleted_at = None\<rparr>"
    by (simp add: createGenre_def Let_def t3 find_genre_by_name_def shop_simps)
  show ?thesis
    using createGenre_trimmed_names [of shop "''   ''"]
      createGenre_trimmed_names [of shop "[CHR 0xA0]"]
      createGenre_trimmed_names [of shop "'' Sci-Fi ''" scifi]
      createGenre_trimmed_names [of shop "''Fiction''" _ "'' Fiction ''"
        "[CHR 0xA0]" "[CHR 0x09, CHR 0x0A]"]
      t1 t2 t3 t4 w s f
    by simp
qed

section \<open>getTransactionStatistics\<close>

lemma joined_row:
  assumes pkb: "distinct (map b_id (books st))" and pkg: "distinct (map g_id (genres st))"
  shows "concat (map (\<lambda>b.
           map g_name
             (filter (\<lambda>g. g_id g = b_genre_id b \<and> b_deleted_at b = None \<and> g_deleted_at g = None)
                (genres st)))
           (filter (\<lambda>b. b_id b = oi_book_id oi) (books st)))
         = (case item_genre_name st oi of None \<Rightarrow> [] | Some n \<Rightarrow> [n])"
proof -
  have genres_of: "filter (\<lambda>g. g_id g = i \<and> live \<and> g_deleted_at g = None) (genres st) =
      (case find_genre_unique st i of
         None \<Rightarrow> []
       | Some g \<Rightarrow> if live \<and> g_deleted_at g = None then [g] else [])" for i live
  proof -
    have "filter (\<lambda>g. g_id g = i \<and> live \<and> g_deleted_at g = None) (genres st) =
          filter (\<lambda>g. live \<and> g_deleted_at g = None) (filter (\<lambda>g. g_id g = i) (genres st))"
      by (simp add: conj_commute)
    also have "\<dots> = filter (\<lambda>g. live \<and> g_deleted_at g = None)
                       (case find (\<lambda>g. g_id g = i) (genres st) of None \<Rightarrow> [] | Some g \<Rightarrow> [g])"
      using pkg by (simp add: filter_distinct_key)
    finally show ?thesis
      by (simp add: find_genre_unique_def split: option.splits)
  qed
  have "filter (\<lambda>b. b_id b = oi_book_id oi) (books st) =
        (case find_book_unique st (oi_book_id oi) of None \<Rightarrow> [] | Some b \<Rightarrow> [b])"
    using pkb by (simp add: filter_distinct_key find_book_unique_def)
  then show ?thesis
    by (simp add: genres_of item_genre_name_def split: option.splits)
qed

lemma joined_genre_names_eq:
  assumes "distinct (map b_id (books st))" and "distinct (map g_id (genres st))"
  shows "joined_genre_names st =
           concat (map (\<lambda>oi. case item_genre_name st oi of None \<Rightarrow> [] | Some n \<Rightarrow> [n])
                     (order_items st))"
  unfolding joined_genre_names_def by (simp add: joined_row [OF assms])

lemma count_list_concat_option:
  "count_list (concat (map (\<lambda>x. case f x of None \<Rightarrow> [] | Some n \<Rightarrow> [n]) xs)) n =
   length (filter (\<lambda>x. f x = Some n) xs)"
  by (induction xs) (auto split: option.splits)

lemma count_joined:
  assumes "distinct (map b_id (books st))" and "distinct (map g_id (genres st))"
  shows "count_list (joined_genre_names st) n = genre_item_count st n"
  by (simp add: joined_genre_names_eq [OF assms] count_list_concat_option genre_item_count_def)

lemma genre_counts_set:
  assumes "distinct (map b_id (books st))" and "distinct (map g_id (genres st))"
  shows "set (genre_counts st) = {(n, genre_item_count st n) | n. 0 < genre_item_count st n}"
proof -
  have "n \<in> set (joined_genre_names st) \<longleftrightarrow> 0 < genre_item_count st n" for n
    using count_list_0_iff [of "joined_genre_names st" n] count_joined [OF assms, of n] by auto
  then show ?thesis
    by (auto simp: genre_counts_def Let_def count_joined [OF assms])
qed

lemma sort_key_first:
  assumes "sort_key f xs = y # ys" and "x \<in> set xs"
  shows "f y \<le> f x"
proof -
  have "sorted (map f (sort_key f xs))" by (rule sorted_sort_key)
  then have "\<forall>z\<in>set ys. f y \<le> f z" by (simp add: assms(1))
  moreover have "x \<in> set (y # ys)" using assms by (metis set_sort)
  ultimately show ?thesis by auto
qed

lemma sort_key_first_mem: "sort_key f xs = y # ys \<Longrightarrow> y \<in> set xs"
  by (metis list.set_intros(1) set_sort)

lemma sort_key_nonempty: "xs \<noteq> [] \<Longrightarrow> \<exists>y ys. sort_key f xs = y # ys"
  by (metis length_sort length_0_conv neq_Nil_conv)

lemma first_name_take: "first_name_or_null (take 1 rows) = first_name_or_null rows"
  by (cases rows) (simp_all add: first_name_or_null_def)

lemma most_popular_max:
  assumes pk: "distinct (map b_id (books st))" "distinct (map g_id (genres st))"
    and some: "0 < genre_item_count st m"
  shows "\<exists>n. 0 < genre_item_count st n \<and>
             (\<forall>n'. genre_item_count st n' \<le> genre_item_count st n) \<and>
             most_popular_genre (getTransactionStatistics st) = (if n = [] then None else Some n)"
proof -
  let ?gs = "genre_counts st"
  have set: "set ?gs = {(n, genre_item_count st n) | n. 0 < genre_item_count st n}"
    using pk by (rule genre_counts_set)
  with some have "?gs \<noteq> []" by auto
  then obtain y ys where y: "sort_key (\<lambda>g. - int (snd g)) ?gs = y # ys"
    using sort_key_nonempty by blast
  then have "y \<in> set ?gs" by (rule sort_key_first_mem)
  with set obtain n where n: "y = (n, genre_item_count st n)" "0 < genre_item_count st n"
    by auto
  have "genre_item_count st n' \<le> genre_item_count st n" for n'
  proof (cases "0 < genre_item_count st n'")
    case True
    with set have "(n', genre_item_count st n') \<in> set ?gs" by auto
    from sort_key_first [OF y this] show ?thesis by (simp add: n(1))
  next
    case False
    then show ?thesis by simp
  qed
  moreover have "most_popular_genre (getTransactionStatistics st) = (if n = [] then None else Some n)"
    by (simp add: getTransactionStatistics_def first_name_take order_by_total_desc_def y
          first_name_or_null_def n(1))
  ultimately show ?thesis using n(2) by blast
qed

lemma least_popular_min:
  assumes pk: "distinct (map b_id (books st))" "distinct (map g_id (genres st))"
    and some: "0 < genre_item_count st m"
  shows "\<exists>n. 0 < genre_item_count st n \<and>
             (\<forall>n'. 0 < genre_item_count st n' \<longrightarrow> genre_item_count st n \<le> genre_item_count st n') \<and>
             least_popular_genre (getTransactionStatistics st) = (if n = [] then None else Some n)"
proof -
  let ?gs = "genre_counts st"
  have set: "set ?gs = {(n, genre_item_count st n) | n. 0 < genre_item_count st n}"
    using pk by (rule genre_counts_set)
  with some have "?gs \<noteq> []" by auto
  then obtain y ys where y: "sort_key (\<lambda>g. int (snd g)) ?gs = y # ys"
    using sort_key_nonempty by blast
  then have "y \<in> set ?gs" by (rule sort_key_first_mem)
  with set obtain n where n: "y = (n, genre_item_count st n)" "0 < genre_item_count st n"
    by auto
  have "genre_item_count st n \<le> genre_item_count st n'" if "0 < genre_item_count st n'" for n'
  proof -
    from that set have "(n', genre_item_count st n') \<in> set ?gs" by auto
    from sort_key_first [OF y this] show ?thesis by (simp add: n(1))
  qed
  moreover have "least_popular_genre (getTransactionStatistics st) = (if n = [] then None else Some n)"
    by (simp add: getTransactionStatistics_def first_name_take order_by_total_asc_def y
          first_name_or_null_def n(1))
  ultimately show ?thesis using n(2) by blast
qed

lemma no_groups:
  assumes "joined_genre_names st = []"
  shows "most_popular_genre (getTransactionStatistics st) = None \<and>
         least_popular_genre (getTransactionStatistics st) = None"
  using assms
  by (simp add: getTransactionStatistics_def genre_counts_def order_by_total_desc_def
        order_by_total_asc_def first_name_or_null_def)

text \<open>
  Claim C8. \<^verbatim>\<open>total_transactions\<close> is the number of orders. On a store with no
  orders (every order item belonging to an order, there are no order items either) the
  statistics are 0, 0, null and null. With orders present,
  \<^verbatim>\<open>average_transaction_value\<close> is the sum of the orders' \<^verbatim>\<open>totalPrice\<close> over their
  number. With book and genre ids being primary keys, the two genres are null when no
  order item counts for any genre; otherwise \<^verbatim>\<open>most_popular_genre\<close> is a genre name
  whose count of order items (of non-deleted books of non-deleted genres) is the
  greatest of all names, and \<^verbatim>\<open>least_popular_genre\<close> one whose count is the least among
  the names with an order item. (An empty name would be reported as null; createGenre
  and updateGenre store no such name.)
\<close>

theorem getTransactionStatistics_values:
  "total_transactions (getTransactionStatistics st) = length (orders st) \<and>
   (orders st = [] \<and> list_all (\<lambda>oi. find_order st (oi_order_id oi) \<noteq> None) (order_items st) \<longrightarrow>
      getTransactionStatistics st =
        \<lparr>total_transactions = 0, average_transaction_value = 0,
         most_popular_genre = None, least_popular_genre = None\<rparr>) \<and>
   (orders st \<noteq> [] \<longrightarrow>
      average_transaction_value (getTransactionStatistics st) =
        sum_list (map o_totalPrice (orders st)) / of_nat (length (orders st))) \<and>
   (distinct (map b_id (books st)) \<and> distinct (map g_id (genres st)) \<longrightarrow>
      ((\<forall>n. genre_item_count st n = 0) \<longrightarrow>
         most_popular_genre (getTransactionStatistics st) = None \<and>
         least_popular_genre (getTransactionStatistics st) = None) \<and>
      ((\<exists>n. 0 < genre_item_count st n) \<longrightarrow>
         (\<exists>n. 0 < genre_item_count st n \<and>
              (\<forall>n'. genre_item_count st n' \<le> genre_item_count st n) \<and>
              most_popular_genre (getTransactionStatistics st) =
                (if n = [] then None else Some n)) \<and>
         (\<exists>n. 0 < genre_item_count st n \<and>
              (\<forall>n'. 0 < genre_item_count st n' \<longrightarrow>
                      genre_item_count st n \<le> genre_item_count st n') \<and>
              least_popular_genre (getTransactionStatistics st) =
                (if n = [] then None else Some n))))"
proof (intro conjI impI)
  show "total_transactions (getTransactionStatistics st) = length (orders st)"
    by (simp add: getTransactionStatistics_def)
next
  assume a: "orders st = [] \<and>
    list_all (\<lambda>oi. find_order st (oi_order_id oi) \<noteq> None) (order_items st)"
  then have "order_items st = []"
    by (cases "order_items st") (auto simp: find_order_def)
  then have "joined_genre_names st = []" by (simp add: joined_genre_names_def)
  from no_groups [OF this] a
  show "getTransactionStatistics st =
        \<lparr>total_transactions = 0, average_transaction_value = 0,
         most_popular_genre = None, least_popular_genre = None\<rparr>"
    by (simp add: getTransactionStatistics_def avg_totalPrice_def)
next
  assume "orders st \<noteq> []"
  then show "average_transaction_value (getTransactionStatistics st) =
        sum_list (map o_totalPrice (orders st)) / of_nat (length (orders st))"
    by (simp add: getTransactionStatistics_def avg_totalPrice_def)
next
  assume pk: "distinct (map b_id (books st)) \<and> distinct (map g_id (genres st))"
    and none: "\<forall>n. genre_item_count st n = 0"
  have "set (genre_counts st) = {(n, genre_item_count st n) | n. 0 < genre_item_count st n}"
    using pk by (intro genre_counts_set) auto
  with none have "genre_counts st = []" by auto
  then have "joined_genre_names st = []"
    by (simp add: genre_counts_def Let_def)
  from no_groups [OF this]
  show "most_popular_genre (getTransactionStatistics st) = None"
    and "least_popular_genre (getTransactionStatistics st) = None" by simp_all
next
  assume pk: "distinct (map b_id (books st)) \<and> distinct (map g_id (genres st))"
    and some: "\<exists>n. 0 < genre_item_count st n"
  then obtain m where m: "0 < genre_item_count st m" by blast
  from pk have pkb: "distinct (map b_id (books st))" and pkg: "distinct (map g_id (genres st))"
    by simp_all
  show "\<exists>n. 0 < genre_item_count st n \<and>
              (\<forall>n'. genre_item_count st n' \<le> genre_item_count st n) \<and>
              most_popular_genre (getTransactionStatistics st) =
                (if n = [] then None else Some n)"
    using pkb pkg m by (rule most_popular_max)
  show "\<exists>n. 0 < genre_item_count st n \<and>
              (\<forall>n'. 0 < genre_item_count st n' \<longrightarrow>
                      genre_item_count st n \<le> genre_item_count st n') \<and>
              least_popular_genre (getTransactionStatistics st) =
                (if n = [] then None else Some n)"
    using pkb pkg m by (rule least_popular_min)
qed

theorem getTransactionStatistics_values_witness:
  "getTransactionStatistics shop =
     \<lparr>total_transactions = 0, average_transaction_value = 0,
      most_popular_genre = None, least_popular_genre = None\<rparr> \<and>
   distinct (map b_id (books busy_shop)) \<and> distinct (map g_id (genres busy_shop)) \<and>
   genre_item_count busy_shop ''Sci-Fi'' = 2 \<and> genre_item_count busy_shop ''Poetry'' = 1 \<and>
   total_transactions (getTransactionStatistics busy_shop) = 2 \<and>
   average_transaction_value (getTransactionStatistics busy_shop) = 200 \<and>
   most_popular_genre (getTransactionStatistics busy_shop) = Some ''Sci-Fi'' \<and>
   least_popular_genre (getTransactionStatistics busy_shop) = Some ''Poetry''"
proof -
  have empty: "getTransactionStatistics shop =
     \<lparr>total_transactions = 0, average_transaction_value = 0,
      most_popular_genre = None, least_popular_genre = None\<rparr>"
    using getTransactionStatistics_values [of shop, THEN conjunct2, THEN conjunct1]
    by (simp add: shop_simps)
  have total: "total_transactions (getTransactionStatistics busy_shop) = 2"
    using getTransactionStatistics_values [of busy_shop, THEN conjunct1]
    by (simp add: busy_shop_def)
  have avg: "average_transaction_value (getTransactionStatistics busy_shop) = 200"
    using getTransactionStatistics_values [of busy_shop, THEN conjunct2, THEN conjunct2,
      THEN conjunct1]
    by (simp add: busy_shop_def shop_simps)
  have pk: "distinct (map b_id (books busy_shop))" "distinct (map g_id (genres busy_shop))"
    by (simp_all add: busy_shop_def odes_def shop_simps)
  have counts: "genre_item_count busy_shop ''Sci-Fi'' = 2"
    "genre_item_count busy_shop ''Poetry'' = 1"
    by (simp_all add: genre_item_count_def item_genre_name_def busy_shop_def odes_def shop_simps)
  have names: "joined_genre_names busy_shop = [''Sci-Fi'', ''Poetry'', ''Sci-Fi'']"
    by (simp add: joined_genre_names_def busy_shop_def odes_def shop_simps)
  have groups: "genre_counts busy_shop = [(''Poetry'', 1), (''Sci-Fi'', 2)]"
    by (simp add: genre_counts_def names)
  have most: "most_popular_genre (getTransactionStatistics busy_shop) = Some ''Sci-Fi''"
    by (simp add: getTransactionStatistics_def groups order_by_total_desc_def
          first_name_or_null_def)
  have least: "least_popular_genre (getTransactionStatistics busy_shop) = Some ''Poetry''"
    by (simp add: getTransactionStatistics_def groups order_by_total_asc_def
          first_name_or_null_def)
  from empty pk counts total avg most least show ?thesis by simp
qed

end
